theory Spec2Isabelle
  imports Main "HOL-Library.Sublist" "HOL-Library.Multiset"
begin

section \<open>Data model\<close>

text \<open>
  Strings are byte lists; a JavaScript string is represented by its UTF-8 encoding. The
  operations used below (equality, \<open>includes\<close> and \<open>startsWith\<close> with ASCII
  needles, concatenation) agree on both representations.

  \<open>LocalPost\<close> of \<open>lib/local-storage.ts\<close>: the nested \<open>author\<close> object is the record
  \<open>Author\<close>; \<open>avatarUrl\<close> is \<open>None\<close> for \<open>null\<close>. Field names carry a prefix because
  \<open>id\<close> is a constant of HOL and the list view has fields of the same names.
\<close>

record Author =
  au_id :: string
  au_name :: string
  au_avatarUrl :: "string option"

record LocalPost =
  lp_id :: string
  lp_title :: string
  lp_body :: string
  lp_tags :: "string list"
  lp_publishedAt :: string
  lp_author :: Author

text \<open>
  A value as \<open>JSON.parse\<close> returns it. TypeScript's types are erased at run time, so
  what \<open>getLocalPosts\<close> hands to its callers is any such value.
\<close>

datatype json =
    JNull
  | JBool bool
  | JNum int
  | JStr string
  | JArr "json list"
  | JObj "(string \<times> json) list"

text \<open>The value \<open>JSON.parse (JSON.stringify post)\<close> of a \<open>LocalPost\<close>.\<close>

definition author_json :: "Author \<Rightarrow> json" where
  "author_json a =
     JObj [(''id'', JStr (au_id a)),
           (''name'', JStr (au_name a)),
           (''avatarUrl'', (case au_avatarUrl a of None \<Rightarrow> JNull | Some u \<Rightarrow> JStr u))]"

definition post_json :: "LocalPost \<Rightarrow> json" where
  "post_json p =
     JObj [(''id'', JStr (lp_id p)),
           (''title'', JStr (lp_title p)),
           (''body'', JStr (lp_body p)),
           (''tags'', JArr (map JStr (lp_tags p))),
           (''publishedAt'', JStr (lp_publishedAt p)),
           (''author'', author_json (lp_author p))]"

section \<open>The browser: local storage, console, router, query client\<close>

text \<open>
  The text stored under the key \<open>blog_posts\<close> is represented by what \<open>JSON.parse\<close>
  does with it: \<open>Blank\<close> is the empty string (falsy), \<open>Garbled\<close> a text on which
  \<open>JSON.parse\<close> throws, \<open>Parses v\<close> a text that parses to \<open>v\<close>. Writing
  \<open>JSON.stringify v\<close> stores a text that parses back to \<open>v\<close>.
\<close>

datatype stored = Blank | Garbled | Parses json

datatype js_error = TypeError | StorageError

datatype log_msg =
    ReadFailed      \<comment> \<open>'Failed to read from localStorage:'\<close>
  | SaveFailed      \<comment> \<open>'Failed to save to localStorage:'\<close>
  | DeleteFailed    \<comment> \<open>'Failed to delete from localStorage:'\<close>
  | OfflineWarning  \<comment> \<open>the warning of \<open>createMutation.onError\<close> before the fallback write\<close>
  | CreateError     \<comment> \<open>the message logged by \<open>createMutation.onError\<close>\<close>
  | DeleteError     \<comment> \<open>the message logged by \<open>deleteMutation.onError\<close>\<close>

datatype effect =
    ConsoleError log_msg
  | ConsoleWarn log_msg
  | StorageWrite                  \<comment> \<open>\<open>localStorage.setItem\<close> has replaced the entry\<close>
  | DeletePostRequest string      \<comment> \<open>the remote mutation \<open>deletePost(id)\<close> is sent\<close>
  | InvalidateQueries             \<comment> \<open>\<open>queryClient.invalidateQueries\<close> of \<open>['GetPosts']\<close>\<close>
  | RouterPush string
  | OnSuccessCallback             \<comment> \<open>the \<open>onSuccess\<close> property of \<open>PostForm\<close> is called\<close>
  | ResetForm                     \<comment> \<open>\<open>reset()\<close> of the form library\<close>
  | SetTimeout nat "effect list"  \<comment> \<open>a callback scheduled after so many milliseconds\<close>

text \<open>
  The state the code runs in. \<open>window_defined\<close> is \<open>typeof window !== 'undefined'\<close>;
  \<open>getItem_throws\<close> and \<open>setItem_throws\<close> say whether the storage device refuses
  the call (access denied, quota exceeded); \<open>item\<close> is the entry under \<open>blog_posts\<close>
  (\<open>None\<close>: \<open>getItem\<close> returns \<open>null\<close>); \<open>trace\<close> lists the effects so far, oldest
  first: what was logged, sent, scheduled or navigated to, and each write to the storage.
\<close>

record sys =
  window_defined :: bool
  getItem_throws :: bool
  setItem_throws :: bool
  item :: "stored option"
  trace :: "effect list"

definition emit :: "effect \<Rightarrow> sys \<Rightarrow> sys" where
  "emit e s = s\<lparr>trace := trace s @ [e]\<rparr>"

definition setItem :: "json \<Rightarrow> sys \<Rightarrow> js_error + sys" where
  "setItem v s =
     (if setItem_throws s then Inl StorageError
      else Inr (emit StorageWrite (s\<lparr>item := Some (Parses v)\<rparr>)))"

section \<open>lib/local-storage.ts\<close>

text \<open>\<open>getLocalPosts\<close>: the whole body after the window test is inside \<open>try\<close>.\<close>

definition getLocalPosts :: "sys \<Rightarrow> json \<times> sys" where
  "getLocalPosts s =
     (if \<not> window_defined s then (JArr [], s)
      else if getItem_throws s then (JArr [], emit (ConsoleError ReadFailed) s)
      else (case item s of
              None \<Rightarrow> (JArr [], s)
            | Some Blank \<Rightarrow> (JArr [], s)
            | Some Garbled \<Rightarrow> (JArr [], emit (ConsoleError ReadFailed) s)
            | Some (Parses v) \<Rightarrow> (v, s)))"

text \<open>
  \<open>p.id\<close> on a run-time value: a \<open>TypeError\<close> on \<open>null\<close>, the property of an
  object, \<open>undefined\<close> (\<open>None\<close>) on everything else.
\<close>

fun prop_id :: "json \<Rightarrow> js_error + json option" where
  "prop_id JNull = Inl TypeError"
| "prop_id (JObj kvs) = Inr (map_of kvs ''id'')"
| "prop_id _ = Inr None"

text \<open>\<open>posts.findIndex((p) => p.id === i)\<close>; \<open>-1\<close> when no element matches.\<close>

fun findIndex_id :: "string \<Rightarrow> json list \<Rightarrow> js_error + int" where
  "findIndex_id i [] = Inr (- 1)"
| "findIndex_id i (p # ps) =
     (case prop_id p of
        Inl e \<Rightarrow> Inl e
      | Inr v \<Rightarrow>
          if v = Some (JStr i) then Inr 0
          else (case findIndex_id i ps of
                  Inl e \<Rightarrow> Inl e
                | Inr k \<Rightarrow> Inr (if 0 \<le> k then k + 1 else - 1)))"

text \<open>\<open>posts.filter((p) => p.id !== i)\<close>.\<close>

fun filter_not_id :: "string \<Rightarrow> json list \<Rightarrow> js_error + json list" where
  "filter_not_id i [] = Inr []"
| "filter_not_id i (p # ps) =
     (case prop_id p of
        Inl e \<Rightarrow> Inl e
      | Inr v \<Rightarrow>
          (case filter_not_id i ps of
             Inl e \<Rightarrow> Inl e
           | Inr qs \<Rightarrow> Inr (if v \<noteq> Some (JStr i) then p # qs else qs)))"

text \<open>\<open>posts.find((p) => p.id === i)\<close>; \<open>None\<close> is \<open>undefined\<close>.\<close>

fun find_id :: "string \<Rightarrow> json list \<Rightarrow> js_error + json option" where
  "find_id i [] = Inr None"
| "find_id i (p # ps) =
     (case prop_id p of
        Inl e \<Rightarrow> Inl e
      | Inr v \<Rightarrow> if v = Some (JStr i) then Inr (Some p) else find_id i ps)"

text \<open>
  The \<open>try\<close> block of \<open>saveLocalPost\<close>, after \<open>getLocalPosts\<close> returned \<open>posts\<close>:
  calling \<open>findIndex\<close> on a value that is not an array is a \<open>TypeError\<close>.
\<close>

definition saveLocalPost_body :: "LocalPost \<Rightarrow> json \<Rightarrow> sys \<Rightarrow> js_error + sys" where
  "saveLocalPost_body post posts s =
     (case posts of
        JArr ps \<Rightarrow>
          (case findIndex_id (lp_id post) ps of
             Inl e \<Rightarrow> Inl e
           | Inr index \<Rightarrow>
               setItem (JArr (if 0 \<le> index then ps[nat index := post_json post]
                              else ps @ [post_json post])) s)
      | _ \<Rightarrow> Inl TypeError)"

definition saveLocalPost :: "LocalPost \<Rightarrow> sys \<Rightarrow> sys" where
  "saveLocalPost post s =
     (if \<not> window_defined s then s
      else (case getLocalPosts s of
              (posts, s1) \<Rightarrow>
                (case saveLocalPost_body post posts s1 of
                   Inl e \<Rightarrow> emit (ConsoleError SaveFailed) s1
                 | Inr s2 \<Rightarrow> s2)))"

definition deleteLocalPost_body :: "string \<Rightarrow> json \<Rightarrow> sys \<Rightarrow> js_error + sys" where
  "deleteLocalPost_body i posts s =
     (case posts of
        JArr ps \<Rightarrow>
          (case filter_not_id i ps of
             Inl e \<Rightarrow> Inl e
           | Inr filtered \<Rightarrow> setItem (JArr filtered) s)
      | _ \<Rightarrow> Inl TypeError)"

definition deleteLocalPost :: "string \<Rightarrow> sys \<Rightarrow> sys" where
  "deleteLocalPost i s =
     (if \<not> window_defined s then s
      else (case getLocalPosts s of
              (posts, s1) \<Rightarrow>
                (case deleteLocalPost_body i posts s1 of
                   Inl e \<Rightarrow> emit (ConsoleError DeleteFailed) s1
                 | Inr s2 \<Rightarrow> s2)))"

text \<open>
  \<open>getLocalPost\<close> has no \<open>try\<close> of its own: what \<open>find\<close> throws leaves the function.
  \<open>None\<close> is the \<open>null\<close> it returns when nothing matches.
\<close>

definition getLocalPost :: "string \<Rightarrow> sys \<Rightarrow> (js_error + json option) \<times> sys" where
  "getLocalPost i s =
     (case getLocalPosts s of
        (posts, s1) \<Rightarrow>
          ((case posts of JArr ps \<Rightarrow> find_id i ps | _ \<Rightarrow> Inl TypeError), s1))"

text \<open>
  A browser whose storage works, and a storage that holds the collection \<open>posts\<close>: the
  entry parses to the array of these posts, or there is no entry (or a blank one) and
  the collection is empty.
\<close>

definition healthy :: "sys \<Rightarrow> bool" where
  "healthy s = (window_defined s \<and> \<not> getItem_throws s \<and> \<not> setItem_throws s)"

definition holds :: "sys \<Rightarrow> LocalPost list \<Rightarrow> bool" where
  "holds s posts =
     (case item s of
        None \<Rightarrow> posts = []
      | Some Blank \<Rightarrow> posts = []
      | Some Garbled \<Rightarrow> False
      | Some (Parses v) \<Rightarrow> v = JArr (map post_json posts))"

section \<open>components/PostList.tsx\<close>

text \<open>
  An element of \<open>GetPostsQuery['posts']\<close>: \<open>id\<close>, \<open>title\<close>, \<open>publishedAt\<close> and
  \<open>author.name\<close>.
\<close>

record PostSummary =
  ps_id :: string
  ps_title :: string
  ps_publishedAt :: string
  ps_authorName :: string

text \<open>A value that was thrown or rejected: an \<open>Error\<close> with its message, or anything else.\<close>

datatype thrown = ErrorObj string | NotAnError

text \<open>What \<open>useGetPostsQuery\<close> returns: \<open>data\<close> (\<open>None\<close> when undefined), \<open>isLoading\<close>, \<open>error\<close>.\<close>

record posts_query =
  q_data :: "PostSummary list option"
  q_isLoading :: bool
  q_error :: "thrown option"

definition convertedLocalPosts :: "LocalPost list \<Rightarrow> PostSummary list" where
  "convertedLocalPosts localPosts =
     map (\<lambda>localPost.
            \<lparr>ps_id = lp_id localPost,
             ps_title = lp_title localPost,
             ps_publishedAt = lp_publishedAt localPost,
             ps_authorName = au_name (lp_author localPost)\<rparr>) localPosts"

text \<open>The \<open>reduce\<close> that drops every post whose id is already in the accumulator.\<close>

definition uniquePosts :: "PostSummary list \<Rightarrow> PostSummary list" where
  "uniquePosts allPosts =
     foldl (\<lambda>acc post.
              if find (\<lambda>p. ps_id p = ps_id post) acc = None then acc @ [post] else acc)
           [] allPosts"

text \<open>
  A JavaScript number that is either an integer or \<open>NaN\<close> (\<open>None\<close>).
  \<open>new Date(s).getTime()\<close> is such a number: the milliseconds since the epoch, or
  \<open>NaN\<close> when \<open>s\<close> is not a date. The parser belongs to the language, so the
  functions below take it as the parameter \<open>getTime\<close>.
\<close>

type_synonym number = "int option"

definition js_minus :: "number \<Rightarrow> number \<Rightarrow> number" where
  "js_minus a b = (case a of None \<Rightarrow> None | Some x \<Rightarrow> (case b of None \<Rightarrow> None | Some y \<Rightarrow> Some (x - y)))"

text \<open>The comparator handed to \<open>sort\<close>: \<open>dateB - dateA\<close>.\<close>

definition compare_publishedAt ::
  "(string \<Rightarrow> number) \<Rightarrow> PostSummary \<Rightarrow> PostSummary \<Rightarrow> number" where
  "compare_publishedAt getTime a b =
     (let dateA = getTime (ps_publishedAt a);
          dateB = getTime (ps_publishedAt b)
      in js_minus dateB dateA)"

text \<open>
  \<open>Array.prototype.sort\<close> with a comparator. ECMAScript requires the sort to be stable
  and reads a comparator result of \<open>NaN\<close> as \<open>0\<close>. For a consistent comparator this
  fixes the result, which is the one insertion from the right computes; for an
  inconsistent one (a \<open>NaN\<close> among the dates) the language leaves the order to the
  implementation, and this function is then only one of the permitted results.
\<close>

definition goes_before :: "('a \<Rightarrow> 'a \<Rightarrow> number) \<Rightarrow> 'a \<Rightarrow> 'a \<Rightarrow> bool" where
  "goes_before cmp x y = (case cmp x y of None \<Rightarrow> True | Some v \<Rightarrow> v \<le> 0)"

fun insert_cmp :: "('a \<Rightarrow> 'a \<Rightarrow> number) \<Rightarrow> 'a \<Rightarrow> 'a list \<Rightarrow> 'a list" where
  "insert_cmp cmp x [] = [x]"
| "insert_cmp cmp x (y # ys) =
     (if goes_before cmp x y then x # y # ys else y # insert_cmp cmp x ys)"

definition js_sort :: "('a \<Rightarrow> 'a \<Rightarrow> number) \<Rightarrow> 'a list \<Rightarrow> 'a list" where
  "js_sort cmp xs = foldr (insert_cmp cmp) xs []"

text \<open>The list of posts the component displays: merge, drop duplicates, sort.\<close>

definition PostList_posts ::
  "(string \<Rightarrow> number) \<Rightarrow> PostSummary list \<Rightarrow> LocalPost list \<Rightarrow> PostSummary list" where
  "PostList_posts getTime serverPosts localPosts =
     (let allPosts = serverPosts @ convertedLocalPosts localPosts
      in js_sort (compare_publishedAt getTime) (uniquePosts allPosts))"

datatype listing = NoPosts | Listing "PostSummary list"

text \<open>
  What the component renders: the spinner, or the page with the create form shown or
  hidden and either the "no posts" line or the list of links.
\<close>

datatype list_view = LoadingView | PageView bool listing

definition PostList ::
  "(string \<Rightarrow> number) \<Rightarrow> posts_query \<Rightarrow> LocalPost list \<Rightarrow> bool \<Rightarrow> list_view" where
  "PostList getTime q localPosts showCreateForm =
     (if q_isLoading q then LoadingView
      else
        (let serverPosts = (case q_data q of None \<Rightarrow> [] | Some d \<Rightarrow> d);
             posts = PostList_posts getTime serverPosts localPosts
         in PageView showCreateForm
              (if length posts = 0 then NoPosts else Listing posts)))"

section \<open>components/PostForm.tsx\<close>

text \<open>\<open>s.startsWith(p)\<close> and \<open>s.includes(needle)\<close> of JavaScript strings.\<close>

definition startsWith :: "string \<Rightarrow> string \<Rightarrow> bool" where
  "startsWith s p = (take (length p) s = p)"

fun includes_str :: "string \<Rightarrow> string \<Rightarrow> bool" where
  "includes_str [] needle = (needle = [])"
| "includes_str (c # cs) needle = (startsWith (c # cs) needle \<or> includes_str cs needle)"

text \<open>The decimal digits of a natural number, as a template literal prints it.\<close>

definition digit :: "nat \<Rightarrow> char" where
  "digit d = ''0123456789'' ! d"

fun decimal :: "nat \<Rightarrow> string" where
  "decimal n =
     (if n < 10 then [digit n] else decimal (n div 10) @ [digit (n mod 10)])"

declare decimal.simps [simp del]

text \<open>
  What the fallback write reads from the outside: \<open>Date.now()\<close>, the string
  \<open>Math.random().toString(36).substr(2, 9)\<close> and \<open>new Date().toISOString()\<close>.
\<close>

record clock =
  now_ms :: nat
  random_suffix :: string
  now_iso :: string

text \<open>\<open>generateLocalPostId\<close> of \<open>lib/local-storage.ts\<close>.\<close>

definition generateLocalPostId :: "clock \<Rightarrow> string" where
  "generateLocalPostId c = ''local_'' @ decimal (now_ms c) @ ''_'' @ random_suffix c"

text \<open>
  The fixed list \<open>AUTHORS\<close>, as pairs of id and name. The names are
  written as the bytes of their UTF-8 encoding.
\<close>

definition AUTHORS :: "(string \<times> string) list" where
  "AUTHORS =
     [(''1'', [CHR 0xE9, CHR 0xAB, CHR 0x99, CHR 0xE6, CHR 0xA9, CHR 0x8B,
               CHR 0xE6, CHR 0x85, CHR 0xB6, CHR 0xE7, CHR 0xA5, CHR 0x90]),
      (''2'', [CHR 0xE4, CHR 0xBD, CHR 0x90, CHR 0xE8, CHR 0x97, CHR 0xA4,
               CHR 0xE5, CHR 0xA4, CHR 0xAA, CHR 0xE9, CHR 0x83, CHR 0x8E]),
      (''3'', [CHR 0xE9, CHR 0x88, CHR 0xB4, CHR 0xE6, CHR 0x9C, CHR 0xA8,
               CHR 0xE8, CHR 0x8A, CHR 0xB1, CHR 0xE5, CHR 0xAD, CHR 0x90]),
      (''4'', [CHR 0xE4, CHR 0xBC, CHR 0x8A, CHR 0xE8, CHR 0x97, CHR 0xA4,
               CHR 0xE6, CHR 0xAC, CHR 0xA1, CHR 0xE9, CHR 0x83, CHR 0x8E]),
      (''5'', [CHR 0xE5, CHR 0x8A, CHR 0xA0, CHR 0xE8, CHR 0x97, CHR 0xA4,
               CHR 0xE4, CHR 0xB8, CHR 0x89, CHR 0xE9, CHR 0x83, CHR 0x8E])]"

text \<open>The placeholder name (two characters, "unknown"), in UTF-8.\<close>

definition unknown_name :: string where
  "unknown_name = [CHR 0xE4, CHR 0xB8, CHR 0x8D, CHR 0xE6, CHR 0x98, CHR 0x8E]"

text \<open>\<open>selectedAuthor?.name || unknown\<close>: an empty name is falsy too.\<close>

definition authorName :: "string \<Rightarrow> string" where
  "authorName authorId =
     (case find (\<lambda>a. fst a = authorId) AUTHORS of
        None \<Rightarrow> unknown_name
      | Some selectedAuthor \<Rightarrow>
          if snd selectedAuthor = [] then unknown_name else snd selectedAuthor)"

text \<open>\<open>CreatePostInput\<close>: \<open>tags\<close> is optional (\<open>None\<close> when undefined or null).\<close>

record CreatePostInput =
  in_title :: string
  in_body :: string
  in_tags :: "string list option"
  in_authorId :: string

text \<open>The \<open>LocalPost\<close> that \<open>createMutation.onError\<close> builds from the form data.\<close>

definition fallbackPost :: "CreatePostInput \<Rightarrow> clock \<Rightarrow> LocalPost" where
  "fallbackPost input c =
     (let tagsArray = (case in_tags input of None \<Rightarrow> [] | Some ts \<Rightarrow> ts);
          authorName = authorName (in_authorId input)
      in \<lparr>lp_id = generateLocalPostId c,
          lp_title = in_title input,
          lp_body = in_body input,
          lp_tags = tagsArray,
          lp_publishedAt = now_iso c,
          lp_author = \<lparr>au_id = in_authorId input, au_name = authorName, au_avatarUrl = None\<rparr>\<rparr>)"

text \<open>The test on the error message that both \<open>onError\<close> and the error box make.\<close>

definition connectivity_message :: "string \<Rightarrow> bool" where
  "connectivity_message message =
     (includes_str message ''Failed to fetch'' \<or> includes_str message ''fetch''
      \<or> includes_str message ''Network'')"

text \<open>
  The state of the form component: \<open>showSuccessMessage\<close>, \<open>tagInput\<close>, \<open>tags\<close>, and
  \<open>createMutation.error\<close>.
\<close>

record form =
  showSuccessMessage :: bool
  tagInput :: string
  tags :: "string list"
  mutation_error :: "thrown option"

definition createMutation_onError ::
  "thrown \<Rightarrow> CreatePostInput \<Rightarrow> clock \<Rightarrow> form \<times> sys \<Rightarrow> form \<times> sys" where
  "createMutation_onError error input c fs =
     (case fs of (f, s) \<Rightarrow>
        (case error of
           ErrorObj message \<Rightarrow>
             if connectivity_message message then
               (let s1 = emit (ConsoleWarn OfflineWarning) s;
                    localPost = fallbackPost input c;
                    s2 = saveLocalPost localPost s1;
                    s3 = emit InvalidateQueries s2;
                    f1 = f\<lparr>showSuccessMessage := True\<rparr>;
                    s4 = emit ResetForm s3;
                    f2 = f1\<lparr>tags := [], tagInput := []\<rparr>;
                    s5 = emit (SetTimeout 2000
                                 [OnSuccessCallback, RouterPush (''/posts/'' @ lp_id localPost)]) s4
                in (f2, s5))
             else (f, emit (ConsoleError CreateError) s)
         | NotAnError \<Rightarrow> (f, emit (ConsoleError CreateError) s)))"

text \<open>
  A create request that fails with \<open>error\<close>: the mutation hook records the error as
  \<open>createMutation.error\<close> and calls \<open>onError\<close> with the submitted variables.
\<close>

definition create_failed ::
  "thrown \<Rightarrow> CreatePostInput \<Rightarrow> clock \<Rightarrow> form \<times> sys \<Rightarrow> form \<times> sys" where
  "create_failed error input c fs =
     (case fs of (f, s) \<Rightarrow>
        createMutation_onError error input c (f\<lparr>mutation_error := Some error\<rparr>, s))"

text \<open>
  What the form component renders: the success message alone, or the form with the red
  error box holding the message when there is one to show.
\<close>

datatype form_view = SuccessMessage | FormView "string option"

definition PostForm :: "form \<Rightarrow> form_view" where
  "PostForm f =
     (if showSuccessMessage f then SuccessMessage
      else FormView
             (case mutation_error f of
                Some (ErrorObj message) \<Rightarrow>
                  if \<not> includes_str message ''Failed to fetch'' \<and> \<not> includes_str message ''fetch''
                     \<and> \<not> includes_str message ''Network''
                  then Some message else None
              | _ \<Rightarrow> None))"

section \<open>components/PostDetail.tsx: deleting a post\<close>

datatype remote_outcome = Succeeded | Failed

definition deleteMutation_onSuccess :: "string \<Rightarrow> sys \<Rightarrow> sys" where
  "deleteMutation_onSuccess postId s =
     (let s1 = (if startsWith postId ''local_'' then deleteLocalPost postId s else s);
          s2 = emit InvalidateQueries s1
      in emit (RouterPush ''/'') s2)"

definition deleteMutation_onError :: "string \<Rightarrow> sys \<Rightarrow> sys" where
  "deleteMutation_onError postId s =
     (if startsWith postId ''local_'' then
        (let s1 = deleteLocalPost postId s;
             s2 = emit InvalidateQueries s1
         in emit (RouterPush ''/'') s2)
      else emit (ConsoleError DeleteError) s)"

text \<open>
  \<open>deleteMutation.mutate({ id: postId })\<close>: the hook sends the request and, when the
  answer is there, calls \<open>onSuccess\<close> or \<open>onError\<close>.
\<close>

definition deleteMutation_mutate :: "string \<Rightarrow> remote_outcome \<Rightarrow> sys \<Rightarrow> sys" where
  "deleteMutation_mutate postId outcome s =
     (let s0 = emit (DeletePostRequest postId) s
      in (case outcome of
            Succeeded \<Rightarrow> deleteMutation_onSuccess postId s0
          | Failed \<Rightarrow> deleteMutation_onError postId s0))"

text \<open>
  The post the detail page displays: the fields of \<open>GetPostQuery['post']\<close>; the
  author's id is there only when the post comes from local storage.
\<close>

record DetailPost =
  dp_id :: string
  dp_title :: string
  dp_body :: string
  dp_tags :: "string list"
  dp_publishedAt :: string
  dp_authorId :: "string option"
  dp_authorName :: string
  dp_avatarUrl :: "string option"

text \<open>
  What \<open>useGetPostQuery\<close> returns (\<open>d_post\<close> is \<open>data?.post\<close>, \<open>None\<close> when it is
  undefined or null) and the state of \<open>deleteMutation\<close> the component can read.
\<close>

record post_query =
  d_post :: "DetailPost option"
  d_isLoading :: bool
  d_error :: "thrown option"

record delete_mutation =
  dm_isPending :: bool
  dm_error :: "thrown option"

text \<open>
  What the detail component renders: the spinner, the "post not found" box, or the
  post with the delete button (disabled while the mutation is pending) and the
  confirmation dialog shown or hidden.
\<close>

datatype detail_view = DetailLoading | NotFound | DetailPage DetailPost bool bool

definition PostDetail ::
  "post_query \<Rightarrow> LocalPost option \<Rightarrow> bool \<Rightarrow> delete_mutation \<Rightarrow> detail_view" where
  "PostDetail q localPost showDeleteConfirm deleteMutation =
     (if d_isLoading q then DetailLoading
      else
        (let post =
               (case d_post q of
                  Some p \<Rightarrow> Some p
                | None \<Rightarrow>
                    (case localPost of
                       Some lp \<Rightarrow>
                         Some \<lparr>dp_id = lp_id lp,
                               dp_title = lp_title lp,
                               dp_body = lp_body lp,
                               dp_tags = lp_tags lp,
                               dp_publishedAt = lp_publishedAt lp,
                               dp_authorId = Some (au_id (lp_author lp)),
                               dp_authorName = au_name (lp_author lp),
                               dp_avatarUrl = au_avatarUrl (lp_author lp)\<rparr>
                     | None \<Rightarrow> None))
         in (case post of
               None \<Rightarrow> NotFound
             | Some p \<Rightarrow> DetailPage p (dm_isPending deleteMutation) showDeleteConfirm)))"

section \<open>Example data\<close>

text \<open>
  A local post with a given id, title and publication time, and a browser whose
  storage works and holds a given collection; they serve as concrete inputs below.
\<close>

definition example_post :: "string \<Rightarrow> string \<Rightarrow> string \<Rightarrow> LocalPost" where
  "example_post i t d =
     \<lparr>lp_id = i, lp_title = t, lp_body = ''text'', lp_tags = [''a''], lp_publishedAt = d,
      lp_author = \<lparr>au_id = ''2'', au_name = ''Sato'', au_avatarUrl = None\<rparr>\<rparr>"

definition browser :: "LocalPost list \<Rightarrow> sys" where
  "browser posts =
     \<lparr>window_defined = True, getItem_throws = False, setItem_throws = False,
      item = Some (Parses (JArr (map post_json posts))), trace = []\<rparr>"

text \<open>A browser whose storage works and has no entry under \<open>blog_posts\<close> yet.\<close>

definition fresh_browser :: sys where
  "fresh_browser =
     \<lparr>window_defined = True, getItem_throws = False, setItem_throws = False,
      item = None, trace = []\<rparr>"

text \<open>
  A remote post with a given id, title and publication time, and a date parser that
  knows two dates (the first of January and the first of June 2024, in milliseconds
  since the epoch) and returns \<open>NaN\<close> on every other string.
\<close>

definition example_summary :: "string \<Rightarrow> string \<Rightarrow> string \<Rightarrow> PostSummary" where
  "example_summary i t d =
     \<lparr>ps_id = i, ps_title = t, ps_publishedAt = d, ps_authorName = ''Suzuki''\<rparr>"

definition example_getTime :: "string \<Rightarrow> number" where
  "example_getTime s =
     (if s = ''2024-01-01T00:00:00Z'' then Some 1704067200000
      else if s = ''2024-06-01T00:00:00Z'' then Some 1717200000000
      else None)"

text \<open>
  A submitted form with a given author id, the readings of clock and random generator
  that make the id \<open>local_12345_abc\<close>, and the form as it is first displayed.
\<close>

definition example_input :: "string \<Rightarrow> CreatePostInput" where
  "example_input authorId =
     \<lparr>in_title = ''Hello'', in_body = ''World'', in_tags = None, in_authorId = authorId\<rparr>"

definition example_clock :: clock where
  "example_clock =
     \<lparr>now_ms = 12345, random_suffix = ''abc'', now_iso = ''2024-06-01T00:00:00.000Z''\<rparr>"

definition initial_form :: form where
  "initial_form =
     \<lparr>showSuccessMessage = False, tagInput = [], tags = [], mutation_error = None\<rparr>"

text \<open>A browser whose storage works and holds the text \<open>{}\<close> under \<open>blog_posts\<close>.\<close>

definition browser_with_object :: sys where
  "browser_with_object =
     \<lparr>window_defined = True, getItem_throws = False, setItem_throws = False,
      item = Some (Parses (JObj [])), trace = []\<rparr>"

section \<open>Local storage: reading and writing a collection of posts\<close>

lemma prop_id_post_json: "prop_id (post_json p) = Inr (Some (JStr (lp_id p)))"
  by (simp add: post_json_def)

lemma findIndex_id_posts:
  "findIndex_id i (map post_json posts) =
     Inr (if i \<in> lp_id ` set posts
          then int (length (takeWhile (\<lambda>p. lp_id p \<noteq> i) posts)) else - 1)"
  by (induction posts) (auto simp: prop_id_post_json)

lemma filter_not_id_posts:
  "filter_not_id i (map post_json posts) =
     Inr (map post_json (filter (\<lambda>p. lp_id p \<noteq> i) posts))"
  by (induction posts) (auto simp: prop_id_post_json)

lemma find_id_posts:
  "find_id i (map post_json posts) =
     Inr (map_option post_json (find (\<lambda>p. lp_id p = i) posts))"
  by (induction posts) (auto simp: prop_id_post_json)

lemma map_JStr_eq: "map JStr xs = map JStr ys \<Longrightarrow> xs = ys"
  by (induction xs arbitrary: ys) auto

lemma author_json_inject: "author_json a = author_json b \<Longrightarrow> a = b"
  by (cases a, cases b) (auto simp: author_json_def split: option.splits)

lemma post_json_inject: "post_json p = post_json q \<Longrightarrow> p = q"
  by (cases p, cases q) (auto simp: post_json_def dest: map_JStr_eq author_json_inject)

lemma map_post_json_inject: "map post_json xs = map post_json ys \<Longrightarrow> xs = ys"
  by (induction xs arbitrary: ys) (auto dest: post_json_inject)

lemma holds_unique: "holds s xs \<Longrightarrow> holds s ys \<Longrightarrow> xs = ys"
  by (auto simp: holds_def dest: map_post_json_inject split: option.splits stored.splits)

lemma getLocalPosts_holds:
  "healthy s \<Longrightarrow> holds s posts \<Longrightarrow> getLocalPosts s = (JArr (map post_json posts), s)"
  by (auto simp: getLocalPosts_def healthy_def holds_def split: option.splits stored.splits)

lemma first_index_lt:
  "i \<in> lp_id ` set posts \<Longrightarrow> length (takeWhile (\<lambda>p. lp_id p \<noteq> i) posts) < length posts"
  by (induction posts) auto

lemma first_index_hit:
  "i \<in> lp_id ` set posts \<Longrightarrow> lp_id (posts ! length (takeWhile (\<lambda>p. lp_id p \<noteq> i) posts)) = i"
  by (induction posts) auto

lemma first_index_least:
  assumes "j < length (takeWhile (\<lambda>p. lp_id p \<noteq> i) posts)"
  shows "lp_id (posts ! j) \<noteq> i"
proof -
  have "takeWhile (\<lambda>p. lp_id p \<noteq> i) posts ! j \<in> set (takeWhile (\<lambda>p. lp_id p \<noteq> i) posts)"
    using assms by simp
  then have "lp_id (takeWhile (\<lambda>p. lp_id p \<noteq> i) posts ! j) \<noteq> i"
    by (blast dest: set_takeWhileD)
  then show ?thesis
    using assms by (simp add: takeWhile_nth)
qed

lemma saveLocalPost_holds:
  assumes "healthy s" "holds s posts"
  shows "saveLocalPost post s =
     emit StorageWrite
       (s\<lparr>item := Some (Parses (JArr (map post_json
          (if lp_id post \<in> lp_id ` set posts
           then posts[length (takeWhile (\<lambda>p. lp_id p \<noteq> lp_id post) posts) := post]
           else posts @ [post]))))\<rparr>)"
  using assms
  by (simp add: saveLocalPost_def getLocalPosts_holds saveLocalPost_body_def
      findIndex_id_posts setItem_def healthy_def map_update)

lemma deleteLocalPost_holds:
  assumes "healthy s" "holds s posts"
  shows "deleteLocalPost i s =
     emit StorageWrite
       (s\<lparr>item := Some (Parses (JArr (map post_json (filter (\<lambda>p. lp_id p \<noteq> i) posts))))\<rparr>)"
  using assms
  by (simp add: deleteLocalPost_def getLocalPosts_holds deleteLocalPost_body_def
      filter_not_id_posts setItem_def healthy_def)


lemma item_emit: "item (emit e s) = item s"
  by (simp add: emit_def)

lemma healthy_emit: "healthy (emit e s) = healthy s"
  by (simp add: emit_def healthy_def)

lemma holds_emit: "holds (emit e s) posts = holds s posts"
  by (simp add: emit_def holds_def)

lemma healthy_browser: "healthy (browser posts)"
  by (simp add: healthy_def browser_def)

lemma holds_browser: "holds (browser posts) posts"
  by (simp add: holds_def browser_def)

lemma holds_saveLocalPost:
  assumes "healthy s" "holds s posts"
  shows "holds (saveLocalPost post s)
           (if lp_id post \<in> lp_id ` set posts
            then posts[length (takeWhile (\<lambda>p. lp_id p \<noteq> lp_id post) posts) := post]
            else posts @ [post])"
  by (simp only: saveLocalPost_holds[OF assms] holds_emit) (simp add: holds_def)

lemma healthy_saveLocalPost: "healthy s \<Longrightarrow> holds s posts \<Longrightarrow> healthy (saveLocalPost post s)"
  by (simp add: saveLocalPost_holds healthy_emit) (simp add: healthy_def)

lemma holds_deleteLocalPost:
  assumes "healthy s" "holds s posts"
  shows "holds (deleteLocalPost i s) (filter (\<lambda>p. lp_id p \<noteq> i) posts)"
  by (simp only: deleteLocalPost_holds[OF assms] holds_emit) (simp add: holds_def)

text \<open>The first save in a browser without an entry creates the collection of one post.\<close>

lemma first_save_on_fresh_browser:
  "holds fresh_browser [] \<and> holds (saveLocalPost post fresh_browser) [post]"
proof -
  have h: "healthy fresh_browser" "holds fresh_browser []"
    by (simp_all add: healthy_def holds_def fresh_browser_def)
  from holds_saveLocalPost[OF h, of post] h(2) show ?thesis by simp
qed

text \<open>
  C6. When the storage works and holds a collection, \<open>saveLocalPost\<close> of a post whose
  id occurs in the collection replaces the first entry with that id at its position and
  the collection keeps its size; of a post whose id does not occur, it appends the post:
  the size grows by one and the entries before it are the old collection.
\<close>

theorem saveLocalPost_upsert:
  assumes "healthy s" and "holds s posts"
  shows "(lp_id post \<in> lp_id ` set posts \<longrightarrow>
            (\<exists>k<length posts.
               lp_id (posts ! k) = lp_id post \<and> (\<forall>j<k. lp_id (posts ! j) \<noteq> lp_id post)
               \<and> holds (saveLocalPost post s) (posts[k := post])
               \<and> length (posts[k := post]) = length posts))
       \<and> (lp_id post \<notin> lp_id ` set posts \<longrightarrow>
            holds (saveLocalPost post s) (posts @ [post])
            \<and> length (posts @ [post]) = length posts + 1
            \<and> take (length posts) (posts @ [post]) = posts)"
proof (intro conjI impI)
  assume present: "lp_id post \<in> lp_id ` set posts"
  let ?k = "length (takeWhile (\<lambda>p. lp_id p \<noteq> lp_id post) posts)"
  have "holds (saveLocalPost post s) (posts[?k := post])"
    using holds_saveLocalPost[OF assms, of post] present by simp
  moreover have "?k < length posts"
    using present by (rule first_index_lt)
  moreover have "lp_id (posts ! ?k) = lp_id post"
    using present by (rule first_index_hit)
  moreover have "\<forall>j<?k. lp_id (posts ! j) \<noteq> lp_id post"
    by (simp add: first_index_least)
  ultimately show "\<exists>k<length posts.
      lp_id (posts ! k) = lp_id post \<and> (\<forall>j<k. lp_id (posts ! j) \<noteq> lp_id post)
      \<and> holds (saveLocalPost post s) (posts[k := post])
      \<and> length (posts[k := post]) = length posts"
    by (intro exI[of _ ?k]) simp
next
  assume "lp_id post \<notin> lp_id ` set posts"
  then show "holds (saveLocalPost post s) (posts @ [post])"
    using holds_saveLocalPost[OF assms, of post] by simp
qed simp_all

theorem saveLocalPost_upsert_witness:
  "healthy (browser [example_post ''1'' ''A'' ''d1'', example_post ''local_9'' ''B'' ''d2''])
   \<and> holds (browser [example_post ''1'' ''A'' ''d1'', example_post ''local_9'' ''B'' ''d2''])
        [example_post ''1'' ''A'' ''d1'', example_post ''local_9'' ''B'' ''d2'']
   \<and> holds (saveLocalPost (example_post ''local_9'' ''C'' ''d3'')
              (browser [example_post ''1'' ''A'' ''d1'', example_post ''local_9'' ''B'' ''d2'']))
        [example_post ''1'' ''A'' ''d1'', example_post ''local_9'' ''C'' ''d3'']
   \<and> holds (saveLocalPost (example_post ''local_7'' ''D'' ''d4'')
              (browser [example_post ''1'' ''A'' ''d1'', example_post ''local_9'' ''B'' ''d2'']))
        [example_post ''1'' ''A'' ''d1'', example_post ''local_9'' ''B'' ''d2'',
         example_post ''local_7'' ''D'' ''d4'']"
proof -
  let ?posts = "[example_post ''1'' ''A'' ''d1'', example_post ''local_9'' ''B'' ''d2'']"
  let ?s = "browser ?posts"
  have h: "healthy ?s" by (rule healthy_browser)
  have c: "holds ?s ?posts" by (rule holds_browser)
  have "\<exists>k<length ?posts. lp_id (?posts ! k) = ''local_9''
          \<and> holds (saveLocalPost (example_post ''local_9'' ''C'' ''d3'') ?s)
               (?posts[k := example_post ''local_9'' ''C'' ''d3''])"
    using saveLocalPost_upsert[OF h c, of "example_post ''local_9'' ''C'' ''d3''"]
    by (auto simp: example_post_def)
  then obtain k where k: "k < length ?posts" "lp_id (?posts ! k) = ''local_9''"
      "holds (saveLocalPost (example_post ''local_9'' ''C'' ''d3'') ?s)
         (?posts[k := example_post ''local_9'' ''C'' ''d3''])"
    by blast
  from k(1) have "k = 0 \<or> k = 1" by auto
  with k(2) have "k = 1" by (auto simp: example_post_def)
  with k(3) have r1: "holds (saveLocalPost (example_post ''local_9'' ''C'' ''d3'') ?s)
        [example_post ''1'' ''A'' ''d1'', example_post ''local_9'' ''C'' ''d3'']"
    by simp
  have r2: "holds (saveLocalPost (example_post ''local_7'' ''D'' ''d4'') ?s)
        (?posts @ [example_post ''local_7'' ''D'' ''d4''])"
    using saveLocalPost_upsert[OF h c, of "example_post ''local_7'' ''D'' ''d4''"]
    by (simp add: example_post_def)
  show ?thesis using h c r1 r2 by simp
qed

section \<open>Deleting a post: what happens to local storage\<close>

lemma item_deleteMutation_not_local:
  "\<not> startsWith postId ''local_'' \<Longrightarrow> item (deleteMutation_mutate postId outcome s) = item s"
  by (cases outcome)
     (simp_all add: deleteMutation_mutate_def deleteMutation_onSuccess_def
        deleteMutation_onError_def item_emit)

lemma holds_deleteMutation_local:
  assumes "startsWith postId ''local_''" "healthy s" "holds s posts"
  shows "holds (deleteMutation_mutate postId outcome s) (filter (\<lambda>p. lp_id p \<noteq> postId) posts)"
proof -
  let ?s0 = "emit (DeletePostRequest postId) s"
  have "healthy ?s0" "holds ?s0 posts"
    using assms by (simp_all add: healthy_emit holds_emit)
  then have "holds (deleteLocalPost postId ?s0) (filter (\<lambda>p. lp_id p \<noteq> postId) posts)"
    by (rule holds_deleteLocalPost)
  then show ?thesis
    using assms(1)
    by (cases outcome)
       (simp_all add: deleteMutation_mutate_def deleteMutation_onSuccess_def
          deleteMutation_onError_def holds_emit)
qed

lemma length_filter_other_ids:
  "distinct (map lp_id posts) \<Longrightarrow> i \<in> lp_id ` set posts \<Longrightarrow>
     length (filter (\<lambda>p. lp_id p \<noteq> i) posts) + 1 = length posts"
proof (induction posts)
  case Nil
  then show ?case by simp
next
  case (Cons a posts)
  show ?case
  proof (cases "lp_id a = i")
    case True
    with Cons.prems have "i \<notin> lp_id ` set posts" by simp
    then have "\<forall>p\<in>set posts. lp_id p \<noteq> i" by blast
    then have "filter (\<lambda>p. lp_id p \<noteq> i) posts = posts"
      by (simp add: filter_id_conv)
    with True show ?thesis by simp
  next
    case False
    with Cons show ?thesis by auto
  qed
qed

text \<open>
  C5. Deleting a post whose id does not start with \<open>local_\<close> leaves the entry of local
  storage as it was, whether the remote deletion succeeds or fails and whatever the
  storage holds. Deleting a post whose id starts with \<open>local_\<close>, on a storage that
  works and holds a collection, leaves the collection without the entries of that id and
  with every other entry in place, again for both outcomes; when the ids of the
  collection are distinct and the id is present, exactly one entry is gone.
\<close>

theorem delete_local_storage_effect:
  "(\<not> startsWith postId ''local_'' \<longrightarrow>
      item (deleteMutation_mutate postId outcome s) = item s)
   \<and> (startsWith postId ''local_'' \<and> healthy s \<and> holds s posts \<longrightarrow>
        holds (deleteMutation_mutate postId outcome s)
          (filter (\<lambda>p. lp_id p \<noteq> postId) posts)
        \<and> (distinct (map lp_id posts) \<and> postId \<in> lp_id ` set posts \<longrightarrow>
             length (filter (\<lambda>p. lp_id p \<noteq> postId) posts) + 1 = length posts))"
proof (intro conjI impI)
  assume "\<not> startsWith postId ''local_''"
  then show "item (deleteMutation_mutate postId outcome s) = item s"
    by (rule item_deleteMutation_not_local)
next
  assume "startsWith postId ''local_'' \<and> healthy s \<and> holds s posts"
  then show "holds (deleteMutation_mutate postId outcome s)
      (filter (\<lambda>p. lp_id p \<noteq> postId) posts)"
    by (simp add: holds_deleteMutation_local)
next
  assume "distinct (map lp_id posts) \<and> postId \<in> lp_id ` set posts"
  then show "length (filter (\<lambda>p. lp_id p \<noteq> postId) posts) + 1 = length posts"
    using length_filter_other_ids[of posts postId] by simp
qed

theorem delete_local_storage_effect_witness:
  "\<not> startsWith ''42'' ''local_''
   \<and> item (deleteMutation_mutate ''42'' Failed
              (browser [example_post ''42'' ''A'' ''d1'', example_post ''local_12345_abc'' ''B'' ''d2'']))
       = item (browser [example_post ''42'' ''A'' ''d1'', example_post ''local_12345_abc'' ''B'' ''d2''])
   \<and> item (deleteMutation_mutate ''42'' Succeeded
              (browser [example_post ''42'' ''A'' ''d1'', example_post ''local_12345_abc'' ''B'' ''d2'']))
       = item (browser [example_post ''42'' ''A'' ''d1'', example_post ''local_12345_abc'' ''B'' ''d2''])
   \<and> startsWith ''local_12345_abc'' ''local_''
   \<and> healthy (browser [example_post ''42'' ''A'' ''d1'', example_post ''local_12345_abc'' ''B'' ''d2''])
   \<and> holds (browser [example_post ''42'' ''A'' ''d1'', example_post ''local_12345_abc'' ''B'' ''d2''])
        [example_post ''42'' ''A'' ''d1'', example_post ''local_12345_abc'' ''B'' ''d2'']
   \<and> distinct (map lp_id [example_post ''42'' ''A'' ''d1'', example_post ''local_12345_abc'' ''B'' ''d2''])
   \<and> ''local_12345_abc'' \<in> lp_id ` set [example_post ''42'' ''A'' ''d1'', example_post ''local_12345_abc'' ''B'' ''d2'']
   \<and> holds (deleteMutation_mutate ''local_12345_abc'' Failed
              (browser [example_post ''42'' ''A'' ''d1'', example_post ''local_12345_abc'' ''B'' ''d2'']))
        [example_post ''42'' ''A'' ''d1'']
   \<and> holds (deleteMutation_mutate ''local_12345_abc'' Succeeded
              (browser [example_post ''42'' ''A'' ''d1'', example_post ''local_12345_abc'' ''B'' ''d2'']))
        [example_post ''42'' ''A'' ''d1'']"
proof -
  let ?posts = "[example_post ''42'' ''A'' ''d1'', example_post ''local_12345_abc'' ''B'' ''d2'']"
  let ?s = "browser ?posts"
  have n: "\<not> startsWith ''42'' ''local_''" by (simp add: startsWith_def)
  have l: "startsWith ''local_12345_abc'' ''local_''" by (simp add: startsWith_def)
  have h: "healthy ?s" by (rule healthy_browser)
  have c: "holds ?s ?posts" by (rule holds_browser)
  have d: "distinct (map lp_id ?posts)" "''local_12345_abc'' \<in> lp_id ` set ?posts"
    by (simp_all add: example_post_def)
  have f: "filter (\<lambda>p. lp_id p \<noteq> ''local_12345_abc'') ?posts = [example_post ''42'' ''A'' ''d1'']"
    by (simp add: example_post_def)
  have a1: "item (deleteMutation_mutate ''42'' Failed ?s) = item ?s"
    using delete_local_storage_effect[of "''42''" Failed ?s ?posts] n by simp
  have a2: "item (deleteMutation_mutate ''42'' Succeeded ?s) = item ?s"
    using delete_local_storage_effect[of "''42''" Succeeded ?s ?posts] n by simp
  have b1: "holds (deleteMutation_mutate ''local_12345_abc'' Failed ?s) [example_post ''42'' ''A'' ''d1'']"
    using delete_local_storage_effect[of "''local_12345_abc''" Failed ?s ?posts] l h c f by simp
  have b2: "holds (deleteMutation_mutate ''local_12345_abc'' Succeeded ?s) [example_post ''42'' ''A'' ''d1'']"
    using delete_local_storage_effect[of "''local_12345_abc''" Succeeded ?s ?posts] l h c f by simp
  show ?thesis
    using n l h c d a1 a2 b1 b2 by simp
qed

section \<open>Deleting a post: the order of effects\<close>

lemma trace_emit: "trace (emit e s) = trace s @ [e]"
  by (simp add: emit_def)

lemma getLocalPosts_trace:
  "\<exists>logs. trace (snd (getLocalPosts s)) = trace s @ logs \<and> set logs \<subseteq> {ConsoleError ReadFailed}"
  by (auto simp: getLocalPosts_def emit_def split: option.splits stored.splits)

lemma setItem_trace: "setItem v s = Inr s' \<Longrightarrow> trace s' = trace s @ [StorageWrite]"
  by (auto simp: setItem_def emit_def split: if_splits)

lemma deleteLocalPost_body_trace:
  "deleteLocalPost_body i posts s = Inr s' \<Longrightarrow> trace s' = trace s @ [StorageWrite]"
  by (auto simp: deleteLocalPost_body_def split: json.splits sum.splits dest: setItem_trace)

lemma deleteLocalPost_trace:
  "\<exists>logs. trace (deleteLocalPost i s) = trace s @ logs
       \<and> set logs \<subseteq> {ConsoleError ReadFailed, ConsoleError DeleteFailed, StorageWrite}"
proof (cases "window_defined s")
  case False
  then show ?thesis by (simp add: deleteLocalPost_def)
next
  case True
  obtain posts s1 where g: "getLocalPosts s = (posts, s1)" by (cases "getLocalPosts s")
  from getLocalPosts_trace[of s] g obtain logs where
    l: "trace s1 = trace s @ logs" "set logs \<subseteq> {ConsoleError ReadFailed}" by auto
  show ?thesis
  proof (cases "deleteLocalPost_body i posts s1")
    case (Inl e)
    then have "trace (deleteLocalPost i s) = trace s @ (logs @ [ConsoleError DeleteFailed])"
      using True g l by (simp add: deleteLocalPost_def trace_emit)
    moreover have "set (logs @ [ConsoleError DeleteFailed])
        \<subseteq> {ConsoleError ReadFailed, ConsoleError DeleteFailed, StorageWrite}"
      using l(2) by auto
    ultimately show ?thesis by blast
  next
    case (Inr s2)
    then have "trace (deleteLocalPost i s) = trace s @ (logs @ [StorageWrite])"
      using True g l deleteLocalPost_body_trace[OF Inr] by (simp add: deleteLocalPost_def)
    moreover have "set (logs @ [StorageWrite])
        \<subseteq> {ConsoleError ReadFailed, ConsoleError DeleteFailed, StorageWrite}"
      using l(2) by auto
    ultimately show ?thesis by blast
  qed
qed

lemma deleteLocalPost_trace_holds:
  "healthy s \<Longrightarrow> holds s posts \<Longrightarrow> trace (deleteLocalPost i s) = trace s @ [StorageWrite]"
  by (simp add: deleteLocalPost_holds trace_emit)

text \<open>
  C4 as the code has it. The remote deletion is requested first, for every id. After
  the answer: for an id that starts with \<open>local_\<close> the removal from local storage is
  attempted (on a working storage that holds a collection it is one write, which removes
  the entry), then the listing is refreshed and the view goes to the home page, on
  success and on failure alike, and the failure is not logged; for any other id a success
  refreshes the listing and goes to the home page, and a failure is logged and does
  nothing else. The detail page does not depend on the error of the mutation.
\<close>

theorem deleteMutation_behaviour:
  "(\<exists>rest. trace (deleteMutation_mutate postId outcome s)
             = trace s @ DeletePostRequest postId # rest
        \<and> (startsWith postId ''local_'' \<longrightarrow>
              (\<exists>logs. rest = logs @ [InvalidateQueries, RouterPush ''/'']
                   \<and> set logs \<subseteq> {ConsoleError ReadFailed, ConsoleError DeleteFailed,
                                  StorageWrite}))
        \<and> (startsWith postId ''local_'' \<and> healthy s \<and> holds s posts \<longrightarrow>
              rest = [StorageWrite, InvalidateQueries, RouterPush ''/''])
        \<and> (\<not> startsWith postId ''local_'' \<and> outcome = Succeeded \<longrightarrow>
              rest = [InvalidateQueries, RouterPush ''/''])
        \<and> (\<not> startsWith postId ''local_'' \<and> outcome = Failed \<longrightarrow>
              rest = [ConsoleError DeleteError]))
   \<and> (startsWith postId ''local_'' \<and> healthy s \<and> holds s posts \<longrightarrow>
        holds (deleteMutation_mutate postId outcome s)
          (filter (\<lambda>p. lp_id p \<noteq> postId) posts))
   \<and> PostDetail q localPost showDeleteConfirm (deleteMutation\<lparr>dm_error := e\<rparr>)
       = PostDetail q localPost showDeleteConfirm deleteMutation"
proof (intro conjI)
  let ?s0 = "emit (DeletePostRequest postId) s"
  show "\<exists>rest. trace (deleteMutation_mutate postId outcome s)
             = trace s @ DeletePostRequest postId # rest
        \<and> (startsWith postId ''local_'' \<longrightarrow>
              (\<exists>logs. rest = logs @ [InvalidateQueries, RouterPush ''/'']
                   \<and> set logs \<subseteq> {ConsoleError ReadFailed, ConsoleError DeleteFailed,
                                  StorageWrite}))
        \<and> (startsWith postId ''local_'' \<and> healthy s \<and> holds s posts \<longrightarrow>
              rest = [StorageWrite, InvalidateQueries, RouterPush ''/''])
        \<and> (\<not> startsWith postId ''local_'' \<and> outcome = Succeeded \<longrightarrow>
              rest = [InvalidateQueries, RouterPush ''/''])
        \<and> (\<not> startsWith postId ''local_'' \<and> outcome = Failed \<longrightarrow>
              rest = [ConsoleError DeleteError])"
  proof (cases "startsWith postId ''local_''")
    case True
    obtain logs where l: "trace (deleteLocalPost postId ?s0) = trace ?s0 @ logs"
        "set logs \<subseteq> {ConsoleError ReadFailed, ConsoleError DeleteFailed, StorageWrite}"
      using deleteLocalPost_trace[of postId ?s0] by blast
    have w: "logs = [StorageWrite]" if "healthy s \<and> holds s posts"
    proof -
      from that have "healthy ?s0" "holds ?s0 posts"
        by (simp_all add: healthy_emit holds_emit)
      then have "trace (deleteLocalPost postId ?s0) = trace ?s0 @ [StorageWrite]"
        by (rule deleteLocalPost_trace_holds)
      with l(1) show ?thesis by simp
    qed
    have "trace (deleteMutation_mutate postId outcome s)
            = trace s @ DeletePostRequest postId # (logs @ [InvalidateQueries, RouterPush ''/''])"
      using True l(1)
      by (cases outcome)
         (simp_all add: deleteMutation_mutate_def deleteMutation_onSuccess_def
            deleteMutation_onError_def trace_emit)
    with True l(2) w show ?thesis by auto
  next
    case False
    then show ?thesis
      by (cases outcome)
         (simp_all add: deleteMutation_mutate_def deleteMutation_onSuccess_def
            deleteMutation_onError_def trace_emit)
  qed
next
  show "startsWith postId ''local_'' \<and> healthy s \<and> holds s posts \<longrightarrow>
        holds (deleteMutation_mutate postId outcome s)
          (filter (\<lambda>p. lp_id p \<noteq> postId) posts)"
    by (simp add: holds_deleteMutation_local)
next
  show "PostDetail q localPost showDeleteConfirm (deleteMutation\<lparr>dm_error := e\<rparr>)
       = PostDetail q localPost showDeleteConfirm deleteMutation"
    by (simp add: PostDetail_def)
qed

text \<open>
  At the id \<open>42\<close> with a failing remote deletion the operation only sends the request
  and logs the error: no navigation and no refresh of the listing. At the id
  \<open>local_12345_abc\<close> with a failing remote deletion the request is sent before the
  storage is written, and nothing is logged.
\<close>

theorem deleteMutation_claim_counterexample:
  "trace (deleteMutation_mutate ''42'' Failed (browser [example_post ''42'' ''A'' ''d1'']))
     = [DeletePostRequest ''42'', ConsoleError DeleteError]
   \<and> trace (deleteMutation_mutate ''local_12345_abc'' Failed
              (browser [example_post ''local_12345_abc'' ''B'' ''d2'']))
     = [DeletePostRequest ''local_12345_abc'', StorageWrite, InvalidateQueries, RouterPush ''/'']"
  by (simp add: deleteMutation_mutate_def deleteMutation_onError_def startsWith_def
      emit_def browser_def deleteLocalPost_def getLocalPosts_def deleteLocalPost_body_def
      setItem_def post_json_def example_post_def)


theorem deleteMutation_behaviour_witness:
  "\<not> startsWith ''42'' ''local_''
   \<and> trace (deleteMutation_mutate ''42'' Succeeded (browser [example_post ''local_1'' ''B'' ''d2'']))
       = [DeletePostRequest ''42'', InvalidateQueries, RouterPush ''/'']
   \<and> trace (deleteMutation_mutate ''42'' Failed (browser [example_post ''local_1'' ''B'' ''d2'']))
       = [DeletePostRequest ''42'', ConsoleError DeleteError]
   \<and> startsWith ''local_1'' ''local_''
   \<and> healthy (browser [example_post ''local_1'' ''B'' ''d2''])
   \<and> holds (browser [example_post ''local_1'' ''B'' ''d2'']) [example_post ''local_1'' ''B'' ''d2'']
   \<and> trace (deleteMutation_mutate ''local_1'' Failed (browser [example_post ''local_1'' ''B'' ''d2'']))
       = [DeletePostRequest ''local_1'', StorageWrite, InvalidateQueries, RouterPush ''/'']
   \<and> holds (deleteMutation_mutate ''local_1'' Failed (browser [example_post ''local_1'' ''B'' ''d2''])) []"
proof -
  let ?posts = "[example_post ''local_1'' ''B'' ''d2'']"
  let ?s = "browser ?posts"
  have n: "\<not> startsWith ''42'' ''local_''" by (simp add: startsWith_def)
  have l: "startsWith ''local_1'' ''local_''" by (simp add: startsWith_def)
  have h: "healthy ?s" by (rule healthy_browser)
  have c: "holds ?s ?posts" by (rule holds_browser)
  have t0: "trace ?s = []" by (simp add: browser_def)
  have f: "filter (\<lambda>p. lp_id p \<noteq> ''local_1'') ?posts = []" by (simp add: example_post_def)
  have a1: "trace (deleteMutation_mutate ''42'' Succeeded ?s)
      = [DeletePostRequest ''42'', InvalidateQueries, RouterPush ''/'']"
    using deleteMutation_behaviour[of "''42''" Succeeded ?s ?posts] n t0 by auto
  have a2: "trace (deleteMutation_mutate ''42'' Failed ?s)
      = [DeletePostRequest ''42'', ConsoleError DeleteError]"
    using deleteMutation_behaviour[of "''42''" Failed ?s ?posts] n t0 by auto
  have b1: "trace (deleteMutation_mutate ''local_1'' Failed ?s)
      = [DeletePostRequest ''local_1'', StorageWrite, InvalidateQueries, RouterPush ''/'']"
    using deleteMutation_behaviour[of "''local_1''" Failed ?s ?posts] l h c t0 by auto
  have b2: "holds (deleteMutation_mutate ''local_1'' Failed ?s) []"
    using deleteMutation_behaviour[of "''local_1''" Failed ?s ?posts] l h c f by auto
  show ?thesis using n l h c a1 a2 b1 b2 by simp
qed

section \<open>Local storage: failures\<close>

text \<open>
  What holds of the four storage functions. \<open>getLocalPosts\<close> returns the parsed value
  of the entry, or the empty array when there is no window, no entry, or the read or
  the parse fails; it never changes the entry.
\<close>

lemma getLocalPosts_result:
  "fst (getLocalPosts s) =
     (if window_defined s \<and> \<not> getItem_throws s
      then (case item s of Some (Parses v) \<Rightarrow> v | _ \<Rightarrow> JArr [])
      else JArr [])"
  by (simp add: getLocalPosts_def split: option.splits stored.splits)

lemma item_getLocalPosts: "item (snd (getLocalPosts s)) = item s"
  by (simp add: getLocalPosts_def emit_def split: option.splits stored.splits)

text \<open>
  \<open>saveLocalPost\<close> and \<open>deleteLocalPost\<close> leave the entry as it is when there is no
  window, when the write is refused, or when the stored value is not an array.
\<close>

lemma setItem_throws_getLocalPosts: "setItem_throws (snd (getLocalPosts s)) = setItem_throws s"
  by (simp add: getLocalPosts_def emit_def split: option.splits stored.splits)

lemma saveLocalPost_noop:
  assumes "\<not> window_defined s \<or> setItem_throws s \<or> (\<forall>ps. fst (getLocalPosts s) \<noteq> JArr ps)"
  shows "item (saveLocalPost post s) = item s"
proof (cases "window_defined s")
  case False
  then show ?thesis by (simp add: saveLocalPost_def)
next
  case True
  obtain posts s1 where g: "getLocalPosts s = (posts, s1)" by (cases "getLocalPosts s")
  have i: "item s1 = item s" using item_getLocalPosts[of s] g by simp
  have t: "setItem_throws s1 = setItem_throws s" using setItem_throws_getLocalPosts[of s] g by simp
  from assms True g t have "\<exists>e. saveLocalPost_body post posts s1 = Inl e"
    by (auto simp: saveLocalPost_body_def setItem_def split: json.splits sum.splits)
  then show ?thesis
    using True g i by (auto simp: saveLocalPost_def item_emit)
qed

lemma deleteLocalPost_noop:
  assumes "\<not> window_defined s \<or> setItem_throws s \<or> (\<forall>ps. fst (getLocalPosts s) \<noteq> JArr ps)"
  shows "item (deleteLocalPost i s) = item s"
proof (cases "window_defined s")
  case False
  then show ?thesis by (simp add: deleteLocalPost_def)
next
  case True
  obtain posts s1 where g: "getLocalPosts s = (posts, s1)" by (cases "getLocalPosts s")
  have i: "item s1 = item s" using item_getLocalPosts[of s] g by simp
  have t: "setItem_throws s1 = setItem_throws s" using setItem_throws_getLocalPosts[of s] g by simp
  from assms True g t have "\<exists>e. deleteLocalPost_body i posts s1 = Inl e"
    by (auto simp: deleteLocalPost_body_def setItem_def split: json.splits sum.splits)
  then show ?thesis
    using True g i by (auto simp: deleteLocalPost_def item_emit)
qed

text \<open>
  \<open>getLocalPost\<close> returns the matching post, or \<open>null\<close>, when the entry is absent,
  blank or unparseable, or holds a collection of posts.
\<close>

lemma getLocalPost_empty:
  "item s = None \<or> item s = Some Blank \<or> item s = Some Garbled \<or> \<not> window_defined s
     \<or> getItem_throws s \<Longrightarrow> fst (getLocalPost i s) = Inr None"
  by (auto simp: getLocalPost_def getLocalPosts_def split: option.splits stored.splits)

lemma getLocalPost_holds:
  "healthy s \<Longrightarrow> holds s posts \<Longrightarrow>
     getLocalPost i s = (Inr (map_option post_json (find (\<lambda>p. lp_id p = i) posts)), s)"
  by (simp add: getLocalPost_def getLocalPosts_holds find_id_posts)

text \<open>
  C7 fails on the code. With the text \<open>{}\<close> stored under \<open>blog_posts\<close> (valid JSON
  that is not an array), \<open>getLocalPosts\<close> returns the object, which is no collection,
  and \<open>getLocalPost\<close>, which has no \<open>try\<close> of its own, throws a \<open>TypeError\<close>;
  \<open>saveLocalPost\<close> and \<open>deleteLocalPost\<close> catch the same error, log it and leave the
  entry as it was.
\<close>

theorem getLocalPost_throws_on_object:
  "fst (getLocalPosts browser_with_object) = JObj []
   \<and> fst (getLocalPost ''local_1'' browser_with_object) = Inl TypeError
   \<and> item (saveLocalPost (example_post ''local_1'' ''B'' ''d2'') browser_with_object)
       = item browser_with_object
   \<and> trace (saveLocalPost (example_post ''local_1'' ''B'' ''d2'') browser_with_object)
       = [ConsoleError SaveFailed]
   \<and> item (deleteLocalPost ''local_1'' browser_with_object) = item browser_with_object
   \<and> trace (deleteLocalPost ''local_1'' browser_with_object) = [ConsoleError DeleteFailed]"
  by (simp add: browser_with_object_def getLocalPosts_def getLocalPost_def saveLocalPost_def
      saveLocalPost_body_def deleteLocalPost_def deleteLocalPost_body_def emit_def)

section \<open>The merged list: duplicates\<close>

lemma find_append_first:
  "find P (xs @ ys) = (case find P xs of None \<Rightarrow> find P ys | Some x \<Rightarrow> Some x)"
  by (induction xs) auto

lemma uniquePosts_foldl_find:
  "find (\<lambda>p. ps_id p = i)
     (foldl (\<lambda>acc post.
               if find (\<lambda>p. ps_id p = ps_id post) acc = None then acc @ [post] else acc)
            acc xs)
   = (case find (\<lambda>p. ps_id p = i) acc of
        None \<Rightarrow> find (\<lambda>p. ps_id p = i) xs
      | Some p \<Rightarrow> Some p)"
proof (induction xs arbitrary: acc)
  case Nil
  then show ?case by (simp split: option.splits)
next
  case (Cons x xs)
  show ?case
    by (simp add: Cons.IH find_append_first split: option.splits)
qed

lemma uniquePosts_foldl_distinct:
  "distinct (map ps_id acc) \<Longrightarrow>
   distinct (map ps_id
     (foldl (\<lambda>acc post.
               if find (\<lambda>p. ps_id p = ps_id post) acc = None then acc @ [post] else acc)
            acc xs))"
proof (induction xs arbitrary: acc)
  case Nil
  then show ?case by simp
next
  case (Cons x xs)
  show ?case
  proof (cases "find (\<lambda>p. ps_id p = ps_id x) acc = None")
    case True
    then have "ps_id x \<notin> ps_id ` set acc"
      by (auto simp: find_None_iff)
    with Cons.prems have "distinct (map ps_id (acc @ [x]))" by simp
    then show ?thesis using True Cons.IH[of "acc @ [x]"] by simp
  next
    case False
    then obtain y where "find (\<lambda>p. ps_id p = ps_id x) acc = Some y" by auto
    then show ?thesis using Cons.IH[OF Cons.prems] by simp
  qed
qed

lemma uniquePosts_foldl_subseq:
  "\<exists>ys. foldl (\<lambda>acc post.
               if find (\<lambda>p. ps_id p = ps_id post) acc = None then acc @ [post] else acc)
            acc xs = acc @ ys \<and> subseq ys xs"
proof (induction xs arbitrary: acc)
  case Nil
  then show ?case by simp
next
  case (Cons x xs)
  show ?case
  proof (cases "find (\<lambda>p. ps_id p = ps_id x) acc = None")
    case True
    from Cons.IH[of "acc @ [x]"] obtain ys where
      "foldl (\<lambda>acc post.
               if find (\<lambda>p. ps_id p = ps_id post) acc = None then acc @ [post] else acc)
            (acc @ [x]) xs = (acc @ [x]) @ ys" "subseq ys xs" by blast
    then show ?thesis using True by (intro exI[of _ "x # ys"]) simp
  next
    case False
    from Cons.IH[of acc] obtain ys where
      "foldl (\<lambda>acc post.
               if find (\<lambda>p. ps_id p = ps_id post) acc = None then acc @ [post] else acc)
            acc xs = acc @ ys" "subseq ys xs" by blast
    moreover from False obtain y where "find (\<lambda>p. ps_id p = ps_id x) acc = Some y" by auto
    ultimately show ?thesis by (intro exI[of _ ys]) (simp add: list_emb_Cons)
  qed
qed

lemma find_uniquePosts: "find (\<lambda>p. ps_id p = i) (uniquePosts xs) = find (\<lambda>p. ps_id p = i) xs"
  by (simp add: uniquePosts_def uniquePosts_foldl_find)

lemma distinct_uniquePosts: "distinct (map ps_id (uniquePosts xs))"
  by (simp add: uniquePosts_def uniquePosts_foldl_distinct)

lemma subseq_uniquePosts: "subseq (uniquePosts xs) xs"
  using uniquePosts_foldl_subseq[of "[]" xs] by (auto simp: uniquePosts_def)

lemma ids_uniquePosts: "ps_id ` set (uniquePosts xs) = ps_id ` set xs"
proof -
  have "i \<in> ps_id ` set (uniquePosts xs) \<longleftrightarrow> i \<in> ps_id ` set xs" for i
    using find_uniquePosts[of i xs]
    by (metis (mono_tags, lifting) find_None_iff image_iff)
  then show ?thesis by blast
qed

lemma mset_insert_cmp: "mset (insert_cmp cmp x ys) = add_mset x (mset ys)"
  by (induction ys) auto

lemma mset_js_sort: "mset (js_sort cmp xs) = mset xs"
  by (induction xs) (auto simp: js_sort_def mset_insert_cmp)

lemma set_js_sort: "set (js_sort cmp xs) = set xs"
  by (metis mset_js_sort set_mset_mset)

lemma distinct_ids_js_sort:
  "distinct (map f (js_sort cmp xs)) = distinct (map f xs)"
proof -
  have "mset (map f (js_sort cmp xs)) = mset (map f xs)"
    by (simp add: mset_js_sort)
  then show ?thesis by (rule mset_eq_imp_distinct_iff)
qed

lemma find_by_distinct_key:
  assumes "distinct (map f xs)"
  shows "find (\<lambda>q. f q = i) xs = Some p \<longleftrightarrow> p \<in> set xs \<and> f p = i"
  using assms by (induction xs) auto

lemma find_same_set:
  assumes "distinct (map f xs)" "distinct (map f ys)" "set xs = set ys"
  shows "find (\<lambda>q. f q = i) xs = find (\<lambda>q. f q = i) ys"
proof (cases "find (\<lambda>q. f q = i) xs")
  case None
  then have "\<not> (\<exists>q\<in>set ys. f q = i)" using assms(3) by (simp add: find_None_iff)
  then have "find (\<lambda>q. f q = i) ys = None" by (simp add: find_None_iff)
  with None show ?thesis by simp
next
  case (Some p)
  then have "p \<in> set ys \<and> f p = i"
    using find_by_distinct_key[OF assms(1)] assms(3) by simp
  then have "find (\<lambda>q. f q = i) ys = Some p"
    using find_by_distinct_key[OF assms(2)] by simp
  with Some show ?thesis by simp
qed

lemma find_PostList_posts:
  "find (\<lambda>p. ps_id p = i) (PostList_posts getTime R L)
     = find (\<lambda>p. ps_id p = i) (R @ convertedLocalPosts L)"
proof -
  let ?u = "uniquePosts (R @ convertedLocalPosts L)"
  have "find (\<lambda>p. ps_id p = i) (js_sort (compare_publishedAt getTime) ?u)
          = find (\<lambda>p. ps_id p = i) ?u"
    by (rule find_same_set) (simp_all add: distinct_ids_js_sort distinct_uniquePosts set_js_sort)
  then show ?thesis
    by (simp add: PostList_posts_def find_uniquePosts)
qed

lemma ids_convertedLocalPosts: "ps_id ` set (convertedLocalPosts L) = lp_id ` set L"
  by (auto simp: convertedLocalPosts_def image_iff)

text \<open>
  C1. The displayed list has no id twice and has exactly the ids of the remote and the
  local collection; for every id its entry is the first one with that id in the remote
  collection followed by the local one, so for an id that occurs in the remote
  collection it is the remote entry, with the remote title, date and author name.
\<close>

theorem merged_view_ids_unique_remote_first:
  "distinct (map ps_id (PostList_posts getTime R L))
   \<and> ps_id ` set (PostList_posts getTime R L) = ps_id ` set R \<union> lp_id ` set L
   \<and> (\<forall>i. find (\<lambda>p. ps_id p = i) (PostList_posts getTime R L)
            = find (\<lambda>p. ps_id p = i) (R @ convertedLocalPosts L))
   \<and> (\<forall>r\<in>set R. \<exists>p\<in>set R.
          ps_id p = ps_id r
          \<and> find (\<lambda>q. ps_id q = ps_id r) R = Some p
          \<and> find (\<lambda>q. ps_id q = ps_id r) (PostList_posts getTime R L) = Some p)"
proof (intro conjI allI ballI)
  show "distinct (map ps_id (PostList_posts getTime R L))"
    by (simp add: PostList_posts_def distinct_ids_js_sort distinct_uniquePosts)
  show "ps_id ` set (PostList_posts getTime R L) = ps_id ` set R \<union> lp_id ` set L"
    by (simp add: PostList_posts_def set_js_sort ids_uniquePosts image_Un
        ids_convertedLocalPosts)
  show "find (\<lambda>p. ps_id p = i) (PostList_posts getTime R L)
       = find (\<lambda>p. ps_id p = i) (R @ convertedLocalPosts L)" for i
    by (rule find_PostList_posts)
next
  fix r assume r: "r \<in> set R"
  then have "find (\<lambda>q. ps_id q = ps_id r) R \<noteq> None"
    by (auto simp: find_None_iff)
  then obtain p where p: "find (\<lambda>q. ps_id q = ps_id r) R = Some p" by auto
  then have "p \<in> set R" "ps_id p = ps_id r"
    by (auto simp: find_Some_iff)
  moreover have "find (\<lambda>q. ps_id q = ps_id r) (PostList_posts getTime R L) = Some p"
    using p by (simp add: find_PostList_posts find_append_first)
  ultimately show "\<exists>p\<in>set R. ps_id p = ps_id r
      \<and> find (\<lambda>q. ps_id q = ps_id r) R = Some p
      \<and> find (\<lambda>q. ps_id q = ps_id r) (PostList_posts getTime R L) = Some p"
    using p by blast
qed

theorem merged_view_ids_unique_remote_first_witness:
  "example_summary ''1'' ''A'' ''2024-01-01T00:00:00Z''
     \<in> set [example_summary ''1'' ''A'' ''2024-01-01T00:00:00Z'']
   \<and> find (\<lambda>q. ps_id q = ''1'')
        (PostList_posts example_getTime
           [example_summary ''1'' ''A'' ''2024-01-01T00:00:00Z'']
           [example_post ''1'' ''Z'' ''2024-06-01T00:00:00Z'',
            example_post ''local_999'' ''B'' ''2024-06-01T00:00:00Z''])
       = Some (example_summary ''1'' ''A'' ''2024-01-01T00:00:00Z'')
   \<and> ps_id ` set (PostList_posts example_getTime
           [example_summary ''1'' ''A'' ''2024-01-01T00:00:00Z'']
           [example_post ''1'' ''Z'' ''2024-06-01T00:00:00Z'',
            example_post ''local_999'' ''B'' ''2024-06-01T00:00:00Z''])
       = {''1'', ''local_999''}"
proof -
  let ?r = "example_summary ''1'' ''A'' ''2024-01-01T00:00:00Z''"
  let ?L = "[example_post ''1'' ''Z'' ''2024-06-01T00:00:00Z'',
            example_post ''local_999'' ''B'' ''2024-06-01T00:00:00Z'']"
  note inst = merged_view_ids_unique_remote_first[of example_getTime "[?r]" ?L]
  have m: "?r \<in> set [?r]" by simp
  from inst m have "\<exists>p\<in>set [?r]. ps_id p = ps_id ?r
      \<and> find (\<lambda>q. ps_id q = ps_id ?r) [?r] = Some p
      \<and> find (\<lambda>q. ps_id q = ps_id ?r) (PostList_posts example_getTime [?r] ?L) = Some p"
    by blast
  then have a: "find (\<lambda>q. ps_id q = ''1'') (PostList_posts example_getTime [?r] ?L) = Some ?r"
    by (simp add: example_summary_def)
  from inst have "ps_id ` set (PostList_posts example_getTime [?r] ?L)
      = ps_id ` set [?r] \<union> lp_id ` set ?L"
    by blast
  then have b: "ps_id ` set (PostList_posts example_getTime [?r] ?L) = {''1'', ''local_999''}"
    by (auto simp: example_summary_def example_post_def)
  show ?thesis using m a b by simp
qed

text \<open>The scenario of the specification: the local copy of post 1 loses against the
  remote one, and the local post of June comes before the remote post of January.\<close>

lemma merged_view_scenario:
  "PostList_posts example_getTime
     [example_summary ''1'' ''A'' ''2024-01-01T00:00:00Z'']
     [example_post ''1'' ''Z'' ''2024-06-01T00:00:00Z'',
      example_post ''local_999'' ''B'' ''2024-06-01T00:00:00Z'']
   = [\<lparr>ps_id = ''local_999'', ps_title = ''B'', ps_publishedAt = ''2024-06-01T00:00:00Z'',
        ps_authorName = ''Sato''\<rparr>,
      \<lparr>ps_id = ''1'', ps_title = ''A'', ps_publishedAt = ''2024-01-01T00:00:00Z'',
        ps_authorName = ''Suzuki''\<rparr>]"
  by (simp add: PostList_posts_def convertedLocalPosts_def uniquePosts_def js_sort_def
      goes_before_def compare_publishedAt_def js_minus_def example_getTime_def
      example_summary_def example_post_def)

section \<open>The merged list: order\<close>

lemma goes_before_dates:
  assumes "getTime (ps_publishedAt a) = Some x" "getTime (ps_publishedAt b) = Some y"
  shows "goes_before (compare_publishedAt getTime) a b \<longleftrightarrow> y \<le> x"
  using assms by (simp add: goes_before_def compare_publishedAt_def js_minus_def)

lemma insert_cmp_insort_key:
  assumes "getTime (ps_publishedAt a) \<noteq> None"
    and "\<forall>p\<in>set ys. getTime (ps_publishedAt p) \<noteq> None"
  shows "insert_cmp (compare_publishedAt getTime) a ys
         = insort_key (\<lambda>p. - the (getTime (ps_publishedAt p))) a ys"
  using assms
proof (induction ys)
  case Nil
  then show ?case by simp
next
  case (Cons b ys)
  from Cons.prems obtain x y where
    xy: "getTime (ps_publishedAt a) = Some x" "getTime (ps_publishedAt b) = Some y"
    by auto
  show ?case
    using Cons xy by (simp add: goes_before_dates[OF xy])
qed

lemma js_sort_sort_key:
  assumes "\<forall>p\<in>set xs. getTime (ps_publishedAt p) \<noteq> None"
  shows "js_sort (compare_publishedAt getTime) xs
         = sort_key (\<lambda>p. - the (getTime (ps_publishedAt p))) xs"
  using assms
proof (induction xs)
  case Nil
  then show ?case by (simp add: js_sort_def)
next
  case (Cons a xs)
  then have IH: "js_sort (compare_publishedAt getTime) xs
         = sort_key (\<lambda>p. - the (getTime (ps_publishedAt p))) xs" by simp
  have "\<forall>p\<in>set (js_sort (compare_publishedAt getTime) xs). getTime (ps_publishedAt p) \<noteq> None"
    using Cons.prems by (simp add: set_js_sort)
  with Cons.prems have "insert_cmp (compare_publishedAt getTime) a (js_sort (compare_publishedAt getTime) xs)
      = insort_key (\<lambda>p. - the (getTime (ps_publishedAt p))) a (js_sort (compare_publishedAt getTime) xs)"
    by (intro insert_cmp_insort_key) simp_all
  then show ?case
    using IH by (simp add: js_sort_def)
qed

lemma js_sort_descending:
  assumes "\<forall>p\<in>set xs. getTime (ps_publishedAt p) \<noteq> None"
  shows "sorted_wrt (\<lambda>a b. \<exists>x y. getTime (ps_publishedAt a) = Some x
                           \<and> getTime (ps_publishedAt b) = Some y \<and> y \<le> x)
           (js_sort (compare_publishedAt getTime) xs)"
proof -
  let ?f = "\<lambda>p. - the (getTime (ps_publishedAt p))"
  let ?ys = "js_sort (compare_publishedAt getTime) xs"
  have "sorted (map ?f ?ys)"
    by (simp add: js_sort_sort_key[OF assms])
  then have s: "sorted_wrt (\<lambda>a b. ?f a \<le> ?f b) ?ys"
    by (simp add: sorted_map)
  have all: "\<forall>p\<in>set ?ys. getTime (ps_publishedAt p) \<noteq> None"
    using assms by (simp add: set_js_sort)
  show ?thesis
  proof (rule sorted_wrt_mono_rel[OF _ s])
    fix a b assume ab: "a \<in> set ?ys" "b \<in> set ?ys" and le: "?f a \<le> ?f b"
    from ab(1) all obtain x where x: "getTime (ps_publishedAt a) = Some x" by blast
    from ab(2) all obtain y where y: "getTime (ps_publishedAt b) = Some y" by blast
    from le x y have "y \<le> x" by simp
    with x y show "\<exists>x y. getTime (ps_publishedAt a) = Some x
        \<and> getTime (ps_publishedAt b) = Some y \<and> y \<le> x" by simp
  qed
qed

lemma js_sort_stable:
  assumes "\<forall>p\<in>set xs. getTime (ps_publishedAt p) \<noteq> None"
  shows "filter (\<lambda>p. getTime (ps_publishedAt p) = t) (js_sort (compare_publishedAt getTime) xs)
         = filter (\<lambda>p. getTime (ps_publishedAt p) = t) xs"
proof (cases t)
  case None
  have "filter (\<lambda>p. getTime (ps_publishedAt p) = None) (js_sort (compare_publishedAt getTime) xs) = []"
    using assms by (simp add: set_js_sort)
  moreover have "filter (\<lambda>p. getTime (ps_publishedAt p) = None) xs = []"
    using assms by simp
  ultimately show ?thesis using None by simp
next
  case (Some v)
  let ?f = "\<lambda>p. - the (getTime (ps_publishedAt p))"
  have eq: "(getTime (ps_publishedAt p) = Some v) = (?f p = - v)" if "p \<in> set xs" for p
    using that assms by auto
  have "filter (\<lambda>p. getTime (ps_publishedAt p) = Some v) (sort_key ?f xs)
        = filter (\<lambda>p. ?f p = - v) (sort_key ?f xs)"
    by (rule filter_cong) (simp_all add: eq)
  also have "\<dots> = filter (\<lambda>p. ?f p = - v) xs"
    by (rule sort_key_stable)
  also have "\<dots> = filter (\<lambda>p. getTime (ps_publishedAt p) = Some v) xs"
    by (rule filter_cong) (simp_all add: eq)
  finally show ?thesis
    using Some by (simp add: js_sort_sort_key[OF assms])
qed


lemma set_uniquePosts: "set (uniquePosts xs) \<subseteq> set xs"
proof
  fix p assume "p \<in> set (uniquePosts xs)"
  with subseq_uniquePosts[of xs] show "p \<in> set xs"
    by (auto elim: list_emb_set)
qed

text \<open>
  C2. When the date parser accepts the publication time of every remote and local post,
  the displayed list is in descending order of publication time; the entries of any one
  time are, in the same order, the entries of that time that survive the removal of
  duplicates, and those come in the order of the remote collection followed by the local
  one.
\<close>

theorem merged_view_sorted_stable:
  assumes "\<forall>p\<in>set (R @ convertedLocalPosts L). getTime (ps_publishedAt p) \<noteq> None"
  shows "sorted_wrt (\<lambda>a b. \<exists>x y. getTime (ps_publishedAt a) = Some x
                            \<and> getTime (ps_publishedAt b) = Some y \<and> y \<le> x)
           (PostList_posts getTime R L)
       \<and> (\<forall>t. filter (\<lambda>p. getTime (ps_publishedAt p) = t) (PostList_posts getTime R L)
              = filter (\<lambda>p. getTime (ps_publishedAt p) = t)
                  (uniquePosts (R @ convertedLocalPosts L))
            \<and> subseq (filter (\<lambda>p. getTime (ps_publishedAt p) = t) (PostList_posts getTime R L))
                 (R @ convertedLocalPosts L))
       \<and> subseq (uniquePosts (R @ convertedLocalPosts L)) (R @ convertedLocalPosts L)"
proof -
  let ?all = "R @ convertedLocalPosts L"
  let ?u = "uniquePosts ?all"
  have ok: "\<forall>p\<in>set ?u. getTime (ps_publishedAt p) \<noteq> None"
    using assms set_uniquePosts[of ?all] by blast
  have sorted: "sorted_wrt (\<lambda>a b. \<exists>x y. getTime (ps_publishedAt a) = Some x
                            \<and> getTime (ps_publishedAt b) = Some y \<and> y \<le> x)
           (PostList_posts getTime R L)"
    using js_sort_descending[OF ok] by (simp add: PostList_posts_def)
  have stable: "filter (\<lambda>p. getTime (ps_publishedAt p) = t) (PostList_posts getTime R L)
              = filter (\<lambda>p. getTime (ps_publishedAt p) = t) ?u" for t
    using js_sort_stable[OF ok] by (simp add: PostList_posts_def)
  have sub: "subseq ?u ?all" by (rule subseq_uniquePosts)
  have "subseq (filter (\<lambda>p. getTime (ps_publishedAt p) = t) (PostList_posts getTime R L)) ?all"
    for t
  proof -
    have "subseq (filter (\<lambda>p. getTime (ps_publishedAt p) = t) ?u) ?u" by simp
    then show ?thesis using sub stable[of t] by (metis subseq_order.order_trans)
  qed
  with sorted stable sub show ?thesis by blast
qed

theorem merged_view_sorted_stable_witness:
  "list_all (\<lambda>p. example_getTime (ps_publishedAt p) \<noteq> None)
       ([example_summary ''1'' ''A'' ''2024-01-01T00:00:00Z'',
         example_summary ''2'' ''C'' ''2024-06-01T00:00:00Z'']
        @ convertedLocalPosts [example_post ''1'' ''Z'' ''2024-06-01T00:00:00Z'',
             example_post ''local_999'' ''B'' ''2024-06-01T00:00:00Z''])
   \<and> sorted_wrt (\<lambda>a b. \<exists>x y. example_getTime (ps_publishedAt a) = Some x
                            \<and> example_getTime (ps_publishedAt b) = Some y \<and> y \<le> x)
        (PostList_posts example_getTime
           [example_summary ''1'' ''A'' ''2024-01-01T00:00:00Z'',
            example_summary ''2'' ''C'' ''2024-06-01T00:00:00Z'']
           [example_post ''1'' ''Z'' ''2024-06-01T00:00:00Z'',
            example_post ''local_999'' ''B'' ''2024-06-01T00:00:00Z''])
   \<and> map ps_id (filter (\<lambda>p. example_getTime (ps_publishedAt p) = Some 1717200000000)
        (PostList_posts example_getTime
           [example_summary ''1'' ''A'' ''2024-01-01T00:00:00Z'',
            example_summary ''2'' ''C'' ''2024-06-01T00:00:00Z'']
           [example_post ''1'' ''Z'' ''2024-06-01T00:00:00Z'',
            example_post ''local_999'' ''B'' ''2024-06-01T00:00:00Z'']))
      = [''2'', ''local_999'']"
proof -
  let ?R = "[example_summary ''1'' ''A'' ''2024-01-01T00:00:00Z'',
            example_summary ''2'' ''C'' ''2024-06-01T00:00:00Z'']"
  let ?L = "[example_post ''1'' ''Z'' ''2024-06-01T00:00:00Z'',
            example_post ''local_999'' ''B'' ''2024-06-01T00:00:00Z'']"
  have h: "\<forall>p\<in>set (?R @ convertedLocalPosts ?L). example_getTime (ps_publishedAt p) \<noteq> None"
    by (simp add: convertedLocalPosts_def example_summary_def example_post_def
        example_getTime_def)
  note inst = merged_view_sorted_stable[OF h]
  have u: "map ps_id (filter (\<lambda>p. example_getTime (ps_publishedAt p) = Some 1717200000000)
            (uniquePosts (?R @ convertedLocalPosts ?L))) = [''2'', ''local_999'']"
    by (simp add: uniquePosts_def convertedLocalPosts_def example_summary_def example_post_def
        example_getTime_def)
  from inst have "filter (\<lambda>p. example_getTime (ps_publishedAt p) = Some 1717200000000)
            (PostList_posts example_getTime ?R ?L)
        = filter (\<lambda>p. example_getTime (ps_publishedAt p) = Some 1717200000000)
            (uniquePosts (?R @ convertedLocalPosts ?L))"
    by blast
  with u have "map ps_id (filter (\<lambda>p. example_getTime (ps_publishedAt p) = Some 1717200000000)
            (PostList_posts example_getTime ?R ?L)) = [''2'', ''local_999'']"
    by simp
  moreover have "list_all (\<lambda>p. example_getTime (ps_publishedAt p) \<noteq> None)
       (?R @ convertedLocalPosts ?L)"
    using h by (simp only: list_all_iff)
  ultimately show ?thesis using inst by blast
qed

section \<open>The list view without remote posts\<close>

lemma PostList_posts_empty: "PostList_posts getTime [] [] = []"
  by (simp add: PostList_posts_def convertedLocalPosts_def uniquePosts_def js_sort_def)

text \<open>
  C8. Once the query is no longer loading, the component does not look at the error of
  the query, and an absent result gives the same view as an empty remote collection. With
  no remote posts (an empty or an absent result) and no local posts, the view is the page
  with the "no posts" line, which is neither the loading view nor a list.
\<close>

theorem list_view_swallows_errors:
  "PostList getTime (q\<lparr>q_error := e\<rparr>) localPosts showCreateForm
     = PostList getTime q localPosts showCreateForm
   \<and> (\<not> q_isLoading q \<and> q_data q = None \<longrightarrow>
        PostList getTime q localPosts showCreateForm
          = PostList getTime (q\<lparr>q_data := Some []\<rparr>) localPosts showCreateForm)
   \<and> (\<not> q_isLoading q \<and> (q_data q = None \<or> q_data q = Some []) \<longrightarrow>
        PostList getTime q [] showCreateForm = PageView showCreateForm NoPosts
        \<and> PostList getTime q [] showCreateForm \<noteq> LoadingView
        \<and> (\<forall>posts. PostList getTime q [] showCreateForm \<noteq> PageView showCreateForm (Listing posts)))"
  by (auto simp: PostList_def PostList_posts_empty)

theorem list_view_swallows_errors_witness:
  "\<not> q_isLoading \<lparr>q_data = None, q_isLoading = False, q_error = Some (ErrorObj ''Failed to fetch'')\<rparr>
   \<and> q_data \<lparr>q_data = None, q_isLoading = False, q_error = Some (ErrorObj ''Failed to fetch'')\<rparr> = None
   \<and> PostList example_getTime
        \<lparr>q_data = None, q_isLoading = False, q_error = Some (ErrorObj ''Failed to fetch'')\<rparr>
        [] False
       = PageView False NoPosts
   \<and> PostList example_getTime
        \<lparr>q_data = None, q_isLoading = False, q_error = Some (ErrorObj ''Failed to fetch'')\<rparr>
        [example_post ''local_999'' ''B'' ''2024-06-01T00:00:00Z''] False
       = PostList example_getTime
        \<lparr>q_data = Some [], q_isLoading = False, q_error = None\<rparr>
        [example_post ''local_999'' ''B'' ''2024-06-01T00:00:00Z''] False"
proof -
  let ?q = "\<lparr>q_data = None, q_isLoading = False, q_error = Some (ErrorObj ''Failed to fetch'')\<rparr>"
  let ?L = "[example_post ''local_999'' ''B'' ''2024-06-01T00:00:00Z'']"
  have h: "\<not> q_isLoading ?q" "q_data ?q = None" by simp_all
  have a: "PostList example_getTime ?q [] False = PageView False NoPosts"
    using list_view_swallows_errors[where getTime = example_getTime and q = ?q and e = None
        and localPosts = "[]" and showCreateForm = False] h by blast
  have b1: "PostList example_getTime ?q ?L False
          = PostList example_getTime (?q\<lparr>q_data := Some []\<rparr>) ?L False"
    using list_view_swallows_errors[where getTime = example_getTime and q = ?q and e = None
        and localPosts = ?L and showCreateForm = False] h by blast
  have b2: "PostList example_getTime ((?q\<lparr>q_data := Some []\<rparr>)\<lparr>q_error := None\<rparr>) ?L False
          = PostList example_getTime (?q\<lparr>q_data := Some []\<rparr>) ?L False"
    using list_view_swallows_errors[where getTime = example_getTime
        and q = "?q\<lparr>q_data := Some []\<rparr>" and e = None and localPosts = ?L
        and showCreateForm = False]
    by blast
  have b: "PostList example_getTime ?q ?L False
      = PostList example_getTime \<lparr>q_data = Some [], q_isLoading = False, q_error = None\<rparr> ?L False"
    using b1 b2 by simp
  show ?thesis using h a b by simp
qed

section \<open>The fallback write of the create form\<close>

lemma connectivity_Failed_to_fetch: "connectivity_message ''Failed to fetch''"
  by (simp add: connectivity_message_def startsWith_def)

lemma not_connectivity_validation:
  "\<not> connectivity_message ''Validation failed: title required''"
  by (simp add: connectivity_message_def startsWith_def)

lemma startsWith_append: "startsWith (p @ s) p"
  by (simp add: startsWith_def)

lemma startsWith_generateLocalPostId: "startsWith (generateLocalPostId c) ''local_''"
  unfolding generateLocalPostId_def by (rule startsWith_append)

lemma digit_in_digits: "d < 10 \<Longrightarrow> digit d \<in> set ''0123456789''"
  unfolding digit_def by (rule nth_mem) simp

lemma decimal_digits: "set (decimal n) \<subseteq> set ''0123456789''"
proof (induction n rule: decimal.induct)
  case (1 n)
  show ?case
  proof (cases "n < 10")
    case True
    then have "decimal n = [digit n]" by (subst decimal.simps) simp
    with True show ?thesis using digit_in_digits[of n] by simp
  next
    case False
    then have d: "decimal n = decimal (n div 10) @ [digit (n mod 10)]"
      by (subst decimal.simps) simp
    have "digit (n mod 10) \<in> set ''0123456789''" by (rule digit_in_digits) simp
    with 1[OF False] show ?thesis unfolding d by simp
  qed
qed

lemma decimal_not_empty: "decimal n \<noteq> []"
  by (subst decimal.simps) simp

lemma find_after_upsert:
  "find (\<lambda>p. lp_id p = lp_id post)
     (if lp_id post \<in> lp_id ` set posts
      then posts[length (takeWhile (\<lambda>p. lp_id p \<noteq> lp_id post) posts) := post]
      else posts @ [post]) = Some post"
proof (cases "lp_id post \<in> lp_id ` set posts")
  case True
  then have "find (\<lambda>p. lp_id p = lp_id post)
      (posts[length (takeWhile (\<lambda>p. lp_id p \<noteq> lp_id post) posts) := post]) = Some post"
    by (induction posts) auto
  with True show ?thesis by simp
next
  case False
  then have "find (\<lambda>p. lp_id p = lp_id post) posts = None"
    by (simp add: find_None_iff) (metis image_eqI)
  with False show ?thesis by (simp add: find_append_first)
qed

lemma mem_after_upsert:
  "post \<in> set (if lp_id post \<in> lp_id ` set posts
      then posts[length (takeWhile (\<lambda>p. lp_id p \<noteq> lp_id post) posts) := post]
      else posts @ [post])"
proof (cases "lp_id post \<in> lp_id ` set posts")
  case True
  then have "length (takeWhile (\<lambda>p. lp_id p \<noteq> lp_id post) posts) < length posts"
    by (rule first_index_lt)
  then show ?thesis using True by (simp add: set_update_memI)
next
  case False
  then show ?thesis by simp
qed

lemma create_failed_connectivity:
  assumes "connectivity_message message"
  shows "create_failed (ErrorObj message) input c (f, s) =
     (f\<lparr>mutation_error := Some (ErrorObj message), showSuccessMessage := True,
         tags := [], tagInput := []\<rparr>,
      emit (SetTimeout 2000
              [OnSuccessCallback, RouterPush (''/posts/'' @ lp_id (fallbackPost input c))])
        (emit ResetForm
          (emit InvalidateQueries
            (saveLocalPost (fallbackPost input c) (emit (ConsoleWarn OfflineWarning) s)))))"
  using assms by (simp add: create_failed_def createMutation_onError_def Let_def)

lemma create_failed_other:
  assumes "\<not> connectivity_message message"
  shows "create_failed (ErrorObj message) input c (f, s) =
     (f\<lparr>mutation_error := Some (ErrorObj message)\<rparr>, emit (ConsoleError CreateError) s)"
  using assms by (simp add: create_failed_def createMutation_onError_def)

lemma create_failed_NotAnError:
  "create_failed NotAnError input c (f, s) =
     (f\<lparr>mutation_error := Some NotAnError\<rparr>, emit (ConsoleError CreateError) s)"
  by (simp add: create_failed_def createMutation_onError_def)

lemma create_failed_persists:
  assumes "connectivity_message message" "healthy s" "holds s posts"
  shows "\<exists>posts'. holds (snd (create_failed (ErrorObj message) input c (f, s))) posts'
           \<and> healthy (snd (create_failed (ErrorObj message) input c (f, s)))
           \<and> fallbackPost input c \<in> set posts'
           \<and> find (\<lambda>p. lp_id p = lp_id (fallbackPost input c)) posts'
               = Some (fallbackPost input c)"
proof -
  let ?post = "fallbackPost input c"
  let ?s1 = "emit (ConsoleWarn OfflineWarning) s"
  let ?posts' = "if lp_id ?post \<in> lp_id ` set posts
      then posts[length (takeWhile (\<lambda>p. lp_id p \<noteq> lp_id ?post) posts) := ?post]
      else posts @ [?post]"
  have h1: "healthy ?s1" "holds ?s1 posts"
    using assms by (simp_all add: healthy_emit holds_emit)
  have "holds (saveLocalPost ?post ?s1) ?posts'"
    by (rule holds_saveLocalPost[OF h1])
  moreover have "healthy (saveLocalPost ?post ?s1)"
    by (rule healthy_saveLocalPost[OF h1])
  ultimately have "holds (snd (create_failed (ErrorObj message) input c (f, s))) ?posts'"
      "healthy (snd (create_failed (ErrorObj message) input c (f, s)))"
    by (simp_all add: create_failed_connectivity[OF assms(1)] holds_emit healthy_emit)
  moreover have "?post \<in> set ?posts'" by (rule mem_after_upsert)
  moreover have "find (\<lambda>p. lp_id p = lp_id ?post) ?posts' = Some ?post"
    by (rule find_after_upsert)
  ultimately show ?thesis by blast
qed

lemma PostForm_shows_error:
  assumes "\<not> connectivity_message message" "\<not> showSuccessMessage f"
  shows "PostForm (f\<lparr>mutation_error := Some (ErrorObj message)\<rparr>) = FormView (Some message)"
  using assms by (simp add: PostForm_def connectivity_message_def)

text \<open>
  C3. A create request that fails with the message \<open>Failed to fetch\<close>: on a storage
  that works and holds a collection, the collection then contains the post built from
  the form, whose id starts with \<open>local_\<close>; the form shows the success message and the
  last effect schedules the call of \<open>onSuccess\<close> and the navigation to the new post.
  A create request that fails with \<open>Validation failed: title required\<close>, or with any
  message that is not classified as a connectivity problem: the entry of local storage
  is as before, and a form that was displayed shows the message in its error box.
\<close>

theorem create_failure_classification:
  "(healthy s \<and> holds s posts \<longrightarrow>
      (\<exists>posts'. holds (snd (create_failed (ErrorObj ''Failed to fetch'') input c (f, s))) posts'
          \<and> (\<exists>p\<in>set posts'. p = fallbackPost input c \<and> startsWith (lp_id p) ''local_'')))
   \<and> PostForm (fst (create_failed (ErrorObj ''Failed to fetch'') input c (f, s))) = SuccessMessage
   \<and> (\<exists>before. trace (snd (create_failed (ErrorObj ''Failed to fetch'') input c (f, s)))
          = before @ [SetTimeout 2000
                        [OnSuccessCallback, RouterPush (''/posts/'' @ generateLocalPostId c)]])
   \<and> item (snd (create_failed (ErrorObj ''Validation failed: title required'') input c (f, s)))
       = item s
   \<and> (\<not> showSuccessMessage f \<longrightarrow>
        PostForm (fst (create_failed (ErrorObj ''Validation failed: title required'') input c (f, s)))
          = FormView (Some ''Validation failed: title required''))
   \<and> (\<forall>message. \<not> connectivity_message message \<longrightarrow>
        item (snd (create_failed (ErrorObj message) input c (f, s))) = item s
        \<and> (\<not> showSuccessMessage f \<longrightarrow>
             PostForm (fst (create_failed (ErrorObj message) input c (f, s)))
               = FormView (Some message)))"
proof (intro conjI impI allI)
  assume hs: "healthy s \<and> holds s posts"
  then obtain posts' where
    "holds (snd (create_failed (ErrorObj ''Failed to fetch'') input c (f, s))) posts'"
    "fallbackPost input c \<in> set posts'"
    using create_failed_persists[OF connectivity_Failed_to_fetch, of s posts input c f] by blast
  moreover have "startsWith (lp_id (fallbackPost input c)) ''local_''"
    by (simp add: fallbackPost_def startsWith_generateLocalPostId)
  ultimately show "\<exists>posts'. holds (snd (create_failed (ErrorObj ''Failed to fetch'') input c (f, s))) posts'
          \<and> (\<exists>p\<in>set posts'. p = fallbackPost input c \<and> startsWith (lp_id p) ''local_'')"
    by blast
next
  show "PostForm (fst (create_failed (ErrorObj ''Failed to fetch'') input c (f, s))) = SuccessMessage"
    by (simp add: create_failed_connectivity[OF connectivity_Failed_to_fetch] PostForm_def)
next
  show "\<exists>before. trace (snd (create_failed (ErrorObj ''Failed to fetch'') input c (f, s)))
          = before @ [SetTimeout 2000
                        [OnSuccessCallback, RouterPush (''/posts/'' @ generateLocalPostId c)]]"
    by (simp add: create_failed_connectivity[OF connectivity_Failed_to_fetch] trace_emit
        fallbackPost_def)
next
  show "item (snd (create_failed (ErrorObj ''Validation failed: title required'') input c (f, s)))
       = item s"
    by (simp add: create_failed_other[OF not_connectivity_validation] item_emit)
next
  assume "\<not> showSuccessMessage f"
  then show "PostForm (fst (create_failed (ErrorObj ''Validation failed: title required'') input c (f, s)))
          = FormView (Some ''Validation failed: title required'')"
    by (simp add: create_failed_other[OF not_connectivity_validation]
        PostForm_shows_error[OF not_connectivity_validation])
next
  fix message assume n: "\<not> connectivity_message message"
  show "item (snd (create_failed (ErrorObj message) input c (f, s))) = item s"
    by (simp add: create_failed_other[OF n] item_emit)
  assume "\<not> showSuccessMessage f"
  then show "PostForm (fst (create_failed (ErrorObj message) input c (f, s)))
               = FormView (Some message)"
    by (simp add: create_failed_other[OF n] PostForm_shows_error[OF n])
qed

theorem create_failure_classification_witness:
  "healthy (browser []) \<and> holds (browser []) []
   \<and> holds (snd (create_failed (ErrorObj ''Failed to fetch'') (example_input ''2'') example_clock
                   (initial_form, browser [])))
        [fallbackPost (example_input ''2'') example_clock]
   \<and> lp_id (fallbackPost (example_input ''2'') example_clock) = ''local_12345_abc''
   \<and> \<not> showSuccessMessage initial_form
   \<and> \<not> connectivity_message ''Validation failed: title required''
   \<and> item (snd (create_failed (ErrorObj ''Validation failed: title required'')
                   (example_input ''2'') example_clock (initial_form, browser [])))
       = item (browser [])
   \<and> PostForm (fst (create_failed (ErrorObj ''Validation failed: title required'')
                   (example_input ''2'') example_clock (initial_form, browser [])))
       = FormView (Some ''Validation failed: title required'')"
proof -
  let ?s = "browser []"
  note inst = create_failure_classification[of ?s "[]" "example_input ''2''" example_clock
      initial_form]
  have h: "healthy ?s" "holds ?s []"
    by (simp_all add: healthy_browser holds_browser)
  have f: "\<not> showSuccessMessage initial_form" by (simp add: initial_form_def)
  have n: "\<not> connectivity_message ''Validation failed: title required''"
    by (rule not_connectivity_validation)
  have i: "lp_id (fallbackPost (example_input ''2'') example_clock) = ''local_12345_abc''"
    by (simp add: fallbackPost_def generateLocalPostId_def example_clock_def decimal.simps
        digit_def)
  from inst h obtain posts' where p:
    "holds (snd (create_failed (ErrorObj ''Failed to fetch'') (example_input ''2'') example_clock
                   (initial_form, ?s))) posts'"
    "fallbackPost (example_input ''2'') example_clock \<in> set posts'"
    by blast
  have "holds (snd (create_failed (ErrorObj ''Failed to fetch'') (example_input ''2'') example_clock
                   (initial_form, ?s))) [fallbackPost (example_input ''2'') example_clock]"
    by (simp add: create_failed_connectivity[OF connectivity_Failed_to_fetch] holds_emit
        holds_saveLocalPost[of "emit (ConsoleWarn OfflineWarning) ?s" "[]", simplified]
        healthy_emit h)
  with p(1) have a: "posts' = [fallbackPost (example_input ''2'') example_clock]"
    by (rule holds_unique)
  from inst f have b: "item (snd (create_failed (ErrorObj ''Validation failed: title required'')
                   (example_input ''2'') example_clock (initial_form, ?s))) = item ?s"
      "PostForm (fst (create_failed (ErrorObj ''Validation failed: title required'')
                   (example_input ''2'') example_clock (initial_form, ?s)))
       = FormView (Some ''Validation failed: title required'')"
    by blast+
  show ?thesis using h p(1) a i f n b by simp
qed

text \<open>
  C9. Every id of \<open>generateLocalPostId\<close> is \<open>local_\<close>, the decimal digits of the
  clock reading, an underscore and the random suffix, and so starts with \<open>local_\<close>. When
  a create request fails with a message classified as a connectivity problem, on a
  storage that works and holds a collection, the collection then contains a post with
  such an id, the title, body, tags (none when the form sent none) and author id of the
  form, and the current time as publication time, and \<open>getLocalPost\<close> of that id
  returns it.
\<close>

theorem local_id_and_fallback_post:
  "startsWith (generateLocalPostId c) ''local_''
   \<and> (\<exists>ds. generateLocalPostId c = ''local_'' @ ds @ ''_'' @ random_suffix c
          \<and> ds = decimal (now_ms c) \<and> ds \<noteq> [] \<and> set ds \<subseteq> set ''0123456789'')
   \<and> (connectivity_message message \<and> healthy s \<and> holds s posts \<longrightarrow>
        (\<exists>posts' p.
           holds (snd (create_failed (ErrorObj message) input c (f, s))) posts'
           \<and> p \<in> set posts'
           \<and> lp_id p = generateLocalPostId c
           \<and> lp_title p = in_title input
           \<and> lp_body p = in_body input
           \<and> lp_tags p = (case in_tags input of None \<Rightarrow> [] | Some ts \<Rightarrow> ts)
           \<and> au_id (lp_author p) = in_authorId input
           \<and> lp_publishedAt p = now_iso c
           \<and> fst (getLocalPost (generateLocalPostId c)
                    (snd (create_failed (ErrorObj message) input c (f, s))))
               = Inr (Some (post_json p))))"
proof (intro conjI impI)
  show "startsWith (generateLocalPostId c) ''local_''"
    by (rule startsWith_generateLocalPostId)
  show "\<exists>ds. generateLocalPostId c = ''local_'' @ ds @ ''_'' @ random_suffix c
          \<and> ds = decimal (now_ms c) \<and> ds \<noteq> [] \<and> set ds \<subseteq> set ''0123456789''"
    using decimal_digits[of "now_ms c"] decimal_not_empty[of "now_ms c"]
    by (simp add: generateLocalPostId_def)
next
  assume a: "connectivity_message message \<and> healthy s \<and> holds s posts"
  let ?s' = "snd (create_failed (ErrorObj message) input c (f, s))"
  let ?p = "fallbackPost input c"
  from a obtain posts' where p: "holds ?s' posts'" "healthy ?s'" "?p \<in> set posts'"
      "find (\<lambda>q. lp_id q = lp_id ?p) posts' = Some ?p"
    using create_failed_persists[of message s posts input c f] by blast
  have i: "lp_id ?p = generateLocalPostId c" by (simp add: fallbackPost_def)
  have "fst (getLocalPost (generateLocalPostId c) ?s') = Inr (Some (post_json ?p))"
    using p(4) by (simp add: getLocalPost_holds[OF p(2) p(1)] i)
  moreover have "lp_title ?p = in_title input" "lp_body ?p = in_body input"
      "lp_tags ?p = (case in_tags input of None \<Rightarrow> [] | Some ts \<Rightarrow> ts)"
      "au_id (lp_author ?p) = in_authorId input" "lp_publishedAt ?p = now_iso c"
    by (simp_all add: fallbackPost_def)
  ultimately show "\<exists>posts' p.
           holds ?s' posts'
           \<and> p \<in> set posts'
           \<and> lp_id p = generateLocalPostId c
           \<and> lp_title p = in_title input
           \<and> lp_body p = in_body input
           \<and> lp_tags p = (case in_tags input of None \<Rightarrow> [] | Some ts \<Rightarrow> ts)
           \<and> au_id (lp_author p) = in_authorId input
           \<and> lp_publishedAt p = now_iso c
           \<and> fst (getLocalPost (generateLocalPostId c) ?s') = Inr (Some (post_json p))"
    using p(1,3) i by blast
qed

theorem local_id_and_fallback_post_witness:
  "connectivity_message ''Network request failed''
   \<and> healthy (browser [example_post ''1'' ''A'' ''d1''])
   \<and> holds (browser [example_post ''1'' ''A'' ''d1'']) [example_post ''1'' ''A'' ''d1'']
   \<and> generateLocalPostId example_clock = ''local_12345_abc''
   \<and> (\<exists>p. fst (getLocalPost ''local_12345_abc''
              (snd (create_failed (ErrorObj ''Network request failed'') (example_input ''2'')
                      example_clock (initial_form, browser [example_post ''1'' ''A'' ''d1'']))))
            = Inr (Some (post_json p))
          \<and> lp_id p = ''local_12345_abc'' \<and> lp_title p = ''Hello'' \<and> lp_body p = ''World''
          \<and> lp_tags p = [] \<and> au_id (lp_author p) = ''2''
          \<and> lp_publishedAt p = ''2024-06-01T00:00:00.000Z'')"
proof -
  let ?s = "browser [example_post ''1'' ''A'' ''d1'']"
  have m: "connectivity_message ''Network request failed''"
    by (simp add: connectivity_message_def startsWith_def)
  have h: "healthy ?s" "holds ?s [example_post ''1'' ''A'' ''d1'']"
    by (simp_all add: healthy_browser holds_browser)
  have i: "generateLocalPostId example_clock = ''local_12345_abc''"
    by (simp add: generateLocalPostId_def example_clock_def decimal.simps digit_def)
  from local_id_and_fallback_post[of example_clock "''Network request failed''" ?s
      "[example_post ''1'' ''A'' ''d1'']" "example_input ''2''" initial_form] m h
  obtain p where
    "fst (getLocalPost (generateLocalPostId example_clock)
              (snd (create_failed (ErrorObj ''Network request failed'') (example_input ''2'')
                      example_clock (initial_form, ?s))))
            = Inr (Some (post_json p))"
    "lp_id p = generateLocalPostId example_clock"
    "lp_title p = in_title (example_input ''2'')"
    "lp_body p = in_body (example_input ''2'')"
    "lp_tags p = (case in_tags (example_input ''2'') of None \<Rightarrow> [] | Some ts \<Rightarrow> ts)"
    "au_id (lp_author p) = in_authorId (example_input ''2'')"
    "lp_publishedAt p = now_iso example_clock"
    by blast
  then have "fst (getLocalPost ''local_12345_abc''
              (snd (create_failed (ErrorObj ''Network request failed'') (example_input ''2'')
                      example_clock (initial_form, ?s))))
            = Inr (Some (post_json p))
          \<and> lp_id p = ''local_12345_abc'' \<and> lp_title p = ''Hello'' \<and> lp_body p = ''World''
          \<and> lp_tags p = [] \<and> au_id (lp_author p) = ''2''
          \<and> lp_publishedAt p = ''2024-06-01T00:00:00.000Z''"
    by (simp add: i example_input_def) (simp add: example_clock_def)
  with m h i show ?thesis by blast
qed

text \<open>
  C10. The post built on the fallback path keeps the submitted author id. When that id
  is none of the ids \<open>1\<close> to \<open>5\<close> of the fixed list of authors, the author name of the
  post is the placeholder; when it is one of them, the name is the one the list gives
  for it. On a storage that works and holds a collection, that post is in the collection
  after a failure classified as a connectivity problem.
\<close>

theorem fallback_author_name:
  "map fst AUTHORS = [''1'', ''2'', ''3'', ''4'', ''5'']
   \<and> au_id (lp_author (fallbackPost input c)) = in_authorId input
   \<and> (in_authorId input \<notin> set (map fst AUTHORS) \<longrightarrow>
        au_name (lp_author (fallbackPost input c)) = unknown_name)
   \<and> (\<forall>a\<in>set AUTHORS. in_authorId input = fst a \<longrightarrow>
        au_name (lp_author (fallbackPost input c)) = snd a)
   \<and> (connectivity_message message \<and> healthy s \<and> holds s posts \<longrightarrow>
        (\<exists>posts'. holds (snd (create_failed (ErrorObj message) input c (f, s))) posts'
            \<and> fallbackPost input c \<in> set posts'))"
proof (intro conjI impI ballI)
  show "map fst AUTHORS = [''1'', ''2'', ''3'', ''4'', ''5'']"
    by (simp add: AUTHORS_def)
  show "au_id (lp_author (fallbackPost input c)) = in_authorId input"
    by (simp add: fallbackPost_def)
next
  assume "in_authorId input \<notin> set (map fst AUTHORS)"
  then have "find (\<lambda>a. fst a = in_authorId input) AUTHORS = None"
    by (force simp: find_None_iff)
  then show "au_name (lp_author (fallbackPost input c)) = unknown_name"
    by (simp add: fallbackPost_def authorName_def)
next
  fix a assume "a \<in> set AUTHORS" "in_authorId input = fst a"
  then show "au_name (lp_author (fallbackPost input c)) = snd a"
    by (auto simp: fallbackPost_def authorName_def AUTHORS_def)
next
  assume "connectivity_message message \<and> healthy s \<and> holds s posts"
  then show "\<exists>posts'. holds (snd (create_failed (ErrorObj message) input c (f, s))) posts'
            \<and> fallbackPost input c \<in> set posts'"
    using create_failed_persists[of message s posts input c f] by blast
qed

theorem fallback_author_name_witness:
  "''9'' \<notin> set (map fst AUTHORS)
   \<and> au_name (lp_author (fallbackPost (example_input ''9'') example_clock)) = unknown_name
   \<and> au_id (lp_author (fallbackPost (example_input ''9'') example_clock)) = ''9''
   \<and> (''3'', [CHR 0xE9, CHR 0x88, CHR 0xB4, CHR 0xE6, CHR 0x9C, CHR 0xA8,
              CHR 0xE8, CHR 0x8A, CHR 0xB1, CHR 0xE5, CHR 0xAD, CHR 0x90]) \<in> set AUTHORS
   \<and> au_name (lp_author (fallbackPost (example_input ''3'') example_clock))
       = [CHR 0xE9, CHR 0x88, CHR 0xB4, CHR 0xE6, CHR 0x9C, CHR 0xA8,
          CHR 0xE8, CHR 0x8A, CHR 0xB1, CHR 0xE5, CHR 0xAD, CHR 0x90]
   \<and> connectivity_message ''Failed to fetch'' \<and> healthy (browser []) \<and> holds (browser []) []
   \<and> (\<exists>posts'. holds (snd (create_failed (ErrorObj ''Failed to fetch'') (example_input ''9'')
                             example_clock (initial_form, browser []))) posts'
          \<and> fallbackPost (example_input ''9'') example_clock \<in> set posts')"
proof -
  let ?n3 = "[CHR 0xE9, CHR 0x88, CHR 0xB4, CHR 0xE6, CHR 0x9C, CHR 0xA8,
              CHR 0xE8, CHR 0x8A, CHR 0xB1, CHR 0xE5, CHR 0xAD, CHR 0x90]"
  note i9 = fallback_author_name[of "example_input ''9''" example_clock "''Failed to fetch''"
      "browser []" "[]" initial_form]
  note i3 = fallback_author_name[of "example_input ''3''" example_clock "''Failed to fetch''"
      "browser []" "[]" initial_form]
  have n: "''9'' \<notin> set (map fst AUTHORS)" by (simp add: AUTHORS_def)
  have a3: "(''3'', ?n3) \<in> set AUTHORS" by (simp add: AUTHORS_def)
  have id9: "in_authorId (example_input ''9'') = ''9''" by (simp add: example_input_def)
  have id3: "in_authorId (example_input ''3'') = fst (''3'', ?n3)" by (simp add: example_input_def)
  have m: "connectivity_message ''Failed to fetch''" by (rule connectivity_Failed_to_fetch)
  have h: "healthy (browser [])" "holds (browser []) []"
    by (simp_all add: healthy_browser holds_browser)
  from i9[unfolded id9] n
  have r1: "au_name (lp_author (fallbackPost (example_input ''9'') example_clock)) = unknown_name"
    by blast
  from i9[unfolded id9]
  have r2: "au_id (lp_author (fallbackPost (example_input ''9'') example_clock)) = ''9''"
    by blast
  from i3 a3 id3 have r3: "au_name (lp_author (fallbackPost (example_input ''3'') example_clock)) = snd (''3'', ?n3)"
    by blast
  from i9 m h have r4: "\<exists>posts'. holds (snd (create_failed (ErrorObj ''Failed to fetch'') (example_input ''9'')
                             example_clock (initial_form, browser []))) posts'
          \<and> fallbackPost (example_input ''9'') example_clock \<in> set posts'"
    by blast
  show ?thesis using n r1 r2 a3 r3 m h r4 by simp
qed

end
